theory Spec2Isabelle
  imports Main "HOL-Library.Word" "HOL-Library.Signed_Division" "HOL-Library.AList"
begin

section \<open>Basic types\<close>

text \<open>
  \<open>dbutils.LSN\<close> is an unsigned 64-bit log position (the engine converts it to and from
  \<open>uint64\<close>); \<open>dbutils.OID\<close> is an unsigned 32-bit table identifier. Arithmetic on words
  wraps around, as Go's unsigned arithmetic does. Raw message bodies are byte slices.
\<close>

type_synonym LSN = "64 word"
type_synonym OID = "32 word"
type_synonym bytes = "8 word list"

text \<open>
  Modelled from the spec: \<open>dbutils.InvalidLSN\<close> and \<open>LSN.IsValid\<close> are not part of the
  sources at hand. The spec says: zero is the distinguished invalid value.
\<close>

definition InvalidLSN :: LSN where
  "InvalidLSN = 0"

definition IsValid :: "LSN \<Rightarrow> bool" where
  "IsValid l = (l \<noteq> InvalidLSN)"

section \<open>The configuration loader (package config)\<close>

text \<open>
  \<open>time.Duration\<close> is a signed 64-bit count of nanoseconds. The only arithmetic the loader
  performs on it is \<open>Truncate\<close>, whose result never exceeds its argument in magnitude, so
  durations are modelled as integers; \<open>smod\<close> is the remainder of Go's \<open>%\<close>, which
  truncates towards zero.
\<close>

type_synonym Duration = int

definition Nanosecond :: Duration where "Nanosecond = 1"
definition Second :: Duration where "Second = 1000000000 * Nanosecond"
definition Minute :: Duration where "Minute = 60 * Second"

text \<open>
  \<open>func (d Duration) Truncate(m Duration) Duration\<close> of the Go standard library:
  \<^verbatim>\<open>if m <= 0 { return d }; return d - d%m\<close>.
\<close>

definition Truncate_Duration :: "Duration \<Rightarrow> Duration \<Rightarrow> Duration" where
  "Truncate_Duration d m = (if m \<le> 0 then d else d - d smod m)"

text \<open>The fields of \<open>config.Config\<close> as the loader declares them.\<close>

record Config =
  TempDir :: string
  Tables :: "string list"
  Slotname :: string
  PublicationName :: string
  TrackNewTables :: bool
  DeltasPerFile :: int
  BackupThreshold :: int
  ConcurrentBasebackups :: int
  InitialBasebackup :: bool
  SendStatusOnCommit :: bool
  Fsync :: bool
  ArchiveDir :: string
  ForceBasebackupAfterInactivityInterval :: Duration
  ArchiverTimeout :: Duration

datatype config_error = CouldNotOpenConfigFile | CouldNotDecodeConfigFile

text \<open>
  \<open>config.New\<close>. Opening the file and decoding its YAML are the environment's part: the
  first argument tells whether \<open>os.Open\<close> succeeds, the second is what the YAML decoder
  leaves in \<open>cfg\<close> (\<open>None\<close> when it reports an error).
\<close>

definition New_config :: "bool \<Rightarrow> Config option \<Rightarrow> config_error + Config" where
  "New_config open_ok decoded =
     (if \<not> open_ok then Inl CouldNotOpenConfigFile
      else case decoded of
        None \<Rightarrow> Inl CouldNotDecodeConfigFile
      | Some cfg \<Rightarrow>
          Inr (cfg\<lparr>ForceBasebackupAfterInactivityInterval :=
                 Truncate_Duration (ForceBasebackupAfterInactivityInterval cfg) (1 * Minute)\<rparr>))"

section \<open>Messages, commands and errors\<close>

text \<open>
  The decoded messages of package \<open>message\<close>, with the fields the engine reads:
  \<open>Relation\<close> (OID, NamespacedName, Raw), the three DML messages (RelationOID, Raw),
  \<open>Begin\<close> (XID, FinalLSN, Raw), \<open>Commit\<close> (LSN, Raw, Timestamp as Unix seconds) and the
  three messages the handler accepts and ignores.
\<close>

datatype NamespacedName = NamespacedName string string

datatype message =
    Relation OID NamespacedName bytes
  | Insert OID bytes
  | Update OID bytes
  | Delete OID bytes
  | Begin "32 word" LSN bytes
  | Commit LSN bytes int
  | Origin
  | Truncate
  | Type bytes

datatype cmdType = cInsert | cUpdate | cDelete | cBegin | cCommit | cRelation | cType

text \<open>
  Every error return and every panic of the engine is a value. The two panics are Go's
  run-time panics: a method call through a nil \<open>TableBackuper\<close> and an assignment to an
  entry of a nil map.
\<close>

datatype error =
    ErrWriteDelta
  | ErrCouldNotWriteTypeMessage
  | ErrCouldNotWriteRelationMessage
  | ErrCouldNotWriteMessage
  | ErrCouldNotAddBackupProcess
  | ErrTablebackupNew
  | ErrOpenFile
  | ErrEncode
  | ErrSyncFile
  | ErrSendStandbyStatus
  | ErrCouldNotConnect
  | ErrCreateMissingPublication
  | ErrCouldNotInitSlot
  | ErrCouldNotCreateSlot
  | ErrCouldNotReadPreviousFlushLSN
  | ErrCouldNotPrepareTables
  | ErrCouldNotExecuteQuery
  | ErrCouldNotFetchRowValues
  | ErrNoTablesFound
  | ErrCouldNotSetReplicaIdentity
  | ErrCouldNotCreateTablebackup
  | ErrCreateDirs
  | ErrReplicationConnect
  | ErrRegisterMetrics
  | PanicNilPointer
  | PanicNilMap

definition is_panic :: "error \<Rightarrow> bool" where
  "is_panic err = (err = PanicNilPointer \<or> err = PanicNilMap)"

text \<open>\<open>fmt.Errorf("...: %v", err)\<close>: an error is wrapped, a panic unwinds as it is.\<close>

definition wrap :: "error \<Rightarrow> error \<Rightarrow> error" where
  "wrap outer err = (if is_panic err then err else outer)"

section \<open>The per-table writer (package tablebackup)\<close>

text \<open>
  Modelled from the spec: package \<open>tablebackup\<close> (the \<open>TableBackuper\<close> interface with
  \<open>WriteDelta\<close>, \<open>GetFlushLSN\<close>, \<open>ID\<close>, \<open>SetTextID\<close>, and the constructor \<open>New\<close>) is not
  part of the sources at hand. The spec says: \<open>write_delta\<close> appends a framed record
  \<open>{record_lsn, length, raw_bytes}\<close>, updates \<open>last_seen_lsn = record_lsn\<close>, sets
  \<open>flush_required = true\<close>, increments a local counter, and if the counter reaches
  \<open>deltas_per_file\<close>, closes the segment; closing a segment updates
  \<open>flushed_lsn = last_seen_lsn\<close> and clears \<open>flush_required\<close>; \<open>get_flush_lsn\<close> returns
  \<open>(flushed_lsn, flush_required)\<close>; I/O errors while writing propagate upward.
  The field \<open>records\<close> is the table's stream: every frame appended so far, over all segments.
\<close>

record TableBackup =
  ID :: OID
  TextID :: NamespacedName
  deltasPerFile :: int
  records :: "(LSN \<times> bytes) list"
  deltaCnt :: int
  lastSeenLSN :: LSN
  flushedLSN :: LSN
  flushRequired :: bool

definition tablebackup_New :: "int \<Rightarrow> NamespacedName \<Rightarrow> OID \<Rightarrow> TableBackup" where
  "tablebackup_New perFile name oid =
     \<lparr>ID = oid, TextID = name, deltasPerFile = perFile, records = [], deltaCnt = 0,
      lastSeenLSN = InvalidLSN, flushedLSN = InvalidLSN, flushRequired = False\<rparr>"

definition closeSegment :: "TableBackup \<Rightarrow> TableBackup" where
  "closeSegment t = t\<lparr>flushedLSN := lastSeenLSN t, flushRequired := False, deltaCnt := 0\<rparr>"

text \<open>
  The first argument says whether the environment makes this write fail. The byte count
  returned is the size of the frame: a 64-bit LSN, a 32-bit length and the body.
\<close>

definition WriteDelta ::
  "bool \<Rightarrow> TableBackup \<Rightarrow> bytes \<Rightarrow> LSN \<Rightarrow> LSN \<Rightarrow> TableBackup \<times> (error + 64 word)" where
  "WriteDelta fails t msg commitLSN recordLSN =
     (if fails then (t, Inl ErrWriteDelta)
      else
        let t1 = t\<lparr>records := records t @ [(recordLSN, msg)],
                    lastSeenLSN := recordLSN,
                    flushRequired := True,
                    deltaCnt := deltaCnt t + 1\<rparr>;
            t2 = (if deltasPerFile t1 \<le> deltaCnt t1 then closeSegment t1 else t1)
        in (t2, Inr (of_nat (12 + length msg))))"

definition GetFlushLSN :: "TableBackup \<Rightarrow> LSN \<times> bool" where
  "GetFlushLSN t = (flushedLSN t, flushRequired t)"

definition SetTextID :: "NamespacedName \<Rightarrow> TableBackup \<Rightarrow> TableBackup" where
  "SetTextID name t = t\<lparr>TextID := name\<rparr>"

section \<open>The engine state\<close>

text \<open>
  The engine is written against a later revision of \<open>config.Config\<close> than the loader above:
  it reads, besides the fields both revisions have, \<open>StagingDir\<close> and \<open>SlotName\<close>.
\<close>

record EngineConfig = Config +
  StagingDir :: string
  SlotName :: string

record NameAtLSN =
  Name :: NamespacedName
  Lsn :: LSN

text \<open>
  What the engine does to the outside world, in the order it does it: the calls on the state
  file and on the OID-to-name file (\<open>os.OpenFile\<close> with \<open>O_CREATE|O_WRONLY|O_TRUNC\<close> on
  \<open>path.Join(dir, file)\<close>, the YAML encoder writing a document into the open file,
  \<open>utils.SyncFileAndDirectory\<close>), and the standby status messages sent upstream. A file is
  named by its directory and its base name.
\<close>

datatype yaml_doc =
    StateInfo LSN
  | NameChangeHistory "(OID \<times> NameAtLSN list) list"

datatype effect =
    OpenFile string string
  | Encode string string yaml_doc
  | SyncFileAndDirectory string string
  | SendStandbyStatus LSN

text \<open>
  The answers of the environment during one step of the engine: which \<open>WriteDelta\<close> calls
  fail (by command and table), whether \<open>tablebackup.New\<close> fails for a table, which file
  operations fail (by directory and base name), and whether sending a standby status fails.
\<close>

record io =
  write_delta_err :: "cmdType \<Rightarrow> OID \<Rightarrow> bool"
  new_table_err :: "OID \<Rightarrow> bool"
  open_err :: "string \<Rightarrow> string \<Rightarrow> bool"
  encode_err :: "string \<Rightarrow> string \<Rightarrow> bool"
  sync_err :: "string \<Rightarrow> string \<Rightarrow> bool"
  send_status_err :: bool

text \<open>
  The fields of \<open>LogicalBackup\<close> that the receive loop reads or writes. Go maps are
  association lists looked up with \<open>map_of\<close>. The registry \<open>backupTables\<close> holds the writer
  objects themselves; a \<open>TableBackuper\<close> value is a reference to one of them, the key under
  which the registry holds it, and \<open>None\<close> is the nil interface. \<open>txBeginRelMsg\<close> is the key
  set of a Go map: \<open>None\<close> is the nil map that \<open>New\<close> leaves there, and the list gives the
  keys in the order the commit loop visits them (Go leaves that order open).
  \<open>isChanged\<close> and \<open>nameChangeHistory\<close> are the two fields of \<open>tableNameChanges\<close>; a lookup
  of an absent OID yields the nil slice, \<open>[]\<close>.
\<close>

type_synonym TableBackuper = "OID option"

record LogicalBackup =
  cfg :: EngineConfig
  backupTables :: "(OID \<times> TableBackup) list"
  isChanged :: bool
  nameChangeHistory :: "(OID \<times> NameAtLSN list) list"
  currentLSN :: LSN
  transactionCommitLSN :: LSN
  latestFlushLSN :: LSN
  lastTxId :: "32 word"
  msgCnt :: "cmdType \<Rightarrow> int"
  bytesWritten :: "64 word"
  txBeginRelMsg :: "OID list option"
  relationMessages :: "(OID \<times> bytes) list"
  beginMsg :: bytes
  typeMsg :: "bytes option"
  effects :: "effect list"

definition OidNameMapFile :: string where "OidNameMapFile = ''oid2name.yaml''"
definition stateFile :: string where "stateFile = ''state.yaml''"

subsection \<open>The table registry\<close>

definition GetIfExists :: "OID \<Rightarrow> LogicalBackup \<Rightarrow> TableBackuper" where
  "GetIfExists oid b = (case map_of (backupTables b) oid of None \<Rightarrow> None | Some t \<Rightarrow> Some oid)"

definition Get :: "OID \<Rightarrow> LogicalBackup \<Rightarrow> TableBackuper \<times> bool" where
  "Get oid b = (case map_of (backupTables b) oid of None \<Rightarrow> (None, False) | Some t \<Rightarrow> (Some oid, True))"

definition Set_table :: "OID \<Rightarrow> TableBackup \<Rightarrow> LogicalBackup \<Rightarrow> LogicalBackup" where
  "Set_table oid t b = b\<lparr>backupTables := AList.update oid t (backupTables b)\<rparr>"

definition Delete_table :: "OID \<Rightarrow> LogicalBackup \<Rightarrow> LogicalBackup" where
  "Delete_table oid b = b\<lparr>backupTables := AList.delete oid (backupTables b)\<rparr>"

definition Map_tables :: "(TableBackup \<Rightarrow> 'a \<Rightarrow> 'a) \<Rightarrow> LogicalBackup \<Rightarrow> 'a \<Rightarrow> 'a" where
  "Map_tables fn b acc = fold fn (map snd (backupTables b)) acc"

text \<open>The history of one OID: \<open>b.tableNameChanges.nameChangeHistory[oid]\<close>.\<close>

definition history :: "LogicalBackup \<Rightarrow> OID \<Rightarrow> NameAtLSN list" where
  "history b oid = (case map_of (nameChangeHistory b) oid of None \<Rightarrow> [] | Some h \<Rightarrow> h)"

definition emit :: "effect \<Rightarrow> LogicalBackup \<Rightarrow> LogicalBackup" where
  "emit x b = b\<lparr>effects := effects b @ [x]\<rparr>"

text \<open>Sequencing with Go's early \<open>return err\<close>: the rest runs only after a nil error.\<close>

definition andThen ::
  "LogicalBackup \<times> error option \<Rightarrow> (LogicalBackup \<Rightarrow> LogicalBackup \<times> error option) \<Rightarrow>
   LogicalBackup \<times> error option" where
  "andThen r f = (case r of (b, None) \<Rightarrow> f b | (b, Some err) \<Rightarrow> (b, Some err))"

definition wrapErr :: "error \<Rightarrow> LogicalBackup \<times> error option \<Rightarrow> LogicalBackup \<times> error option" where
  "wrapErr outer r = (case r of (b, None) \<Rightarrow> (b, None) | (b, Some err) \<Rightarrow> (b, Some (wrap outer err)))"

section \<open>The engine's operations\<close>

definition baseDir :: "LogicalBackup \<Rightarrow> string" where
  "baseDir b = (if StagingDir (cfg b) \<noteq> '''' then StagingDir (cfg b) else ArchiveDir (cfg b))"

text \<open>
  A method call through a \<open>TableBackuper\<close> that changes the writer: it panics on the nil
  interface and otherwise updates the object the registry holds. A reference always comes from
  a lookup made in the same step, so it names a registered writer; the model treats a dangling
  one like nil.
\<close>

definition deref :: "TableBackuper \<Rightarrow> LogicalBackup \<Rightarrow> (OID \<times> TableBackup) option" where
  "deref t b =
     (case t of
        None \<Rightarrow> None
      | Some k \<Rightarrow> (case map_of (backupTables b) k of None \<Rightarrow> None | Some w \<Rightarrow> Some (k, w)))"

definition store :: "OID \<Rightarrow> TableBackup \<Rightarrow> LogicalBackup \<Rightarrow> LogicalBackup" where
  "store k w b = b\<lparr>backupTables := AList.update k w (backupTables b)\<rparr>"

definition WriteCommandDataForTable ::
  "io \<Rightarrow> TableBackuper \<Rightarrow> bytes \<Rightarrow> cmdType \<Rightarrow> LogicalBackup \<Rightarrow> LogicalBackup \<times> error option" where
  "WriteCommandDataForTable e t msg cmd b =
     (case deref t b of
        None \<Rightarrow> (b, Some PanicNilPointer)
      | Some (k, w) \<Rightarrow>
          (case WriteDelta (write_delta_err e cmd k) w msg (transactionCommitLSN b) (currentLSN b) of
             (w', Inl err) \<Rightarrow> (store k w' b, Some err)
           | (w', Inr ln) \<Rightarrow>
               ((store k w' b)\<lparr>bytesWritten := bytesWritten b + ln,
                                msgCnt := (msgCnt b)(cmd := msgCnt b cmd + 1)\<rparr>, None)))"

subsection \<open>processDMLMessage\<close>

text \<open>The keys of \<open>txBeginRelMsg\<close>; reading and ranging over a nil map find no key.\<close>

definition participating :: "LogicalBackup \<Rightarrow> OID list" where
  "participating b = (case txBeginRelMsg b of None \<Rightarrow> [] | Some ks \<Rightarrow> ks)"

text \<open>
  The three guarded writes that precede the DML record, in the order of the source:
  the begin message (with the assignment \<open>b.txBeginRelMsg[bt.ID()] = struct{}{}\<close>, which
  panics on a nil map), the type message, the pending relation message.
\<close>

definition processDMLMessage_begin ::
  "io \<Rightarrow> OID \<Rightarrow> TableBackuper \<Rightarrow> LogicalBackup \<Rightarrow> LogicalBackup \<times> error option" where
  "processDMLMessage_begin e tableOID bt b =
     (if tableOID \<in> set (participating b) then (b, None)
      else andThen (WriteCommandDataForTable e bt (beginMsg b) cBegin b)
        (\<lambda>b. case deref bt b of
                None \<Rightarrow> (b, Some PanicNilPointer)
              | Some (k, w) \<Rightarrow>
                  (case txBeginRelMsg b of
                     None \<Rightarrow> (b, Some PanicNilMap)
                   | Some ks \<Rightarrow>
                       (b\<lparr>txBeginRelMsg := Some (if ID w \<in> set ks then ks else ks @ [ID w])\<rparr>,
                        None))))"

definition processDMLMessage_type ::
  "io \<Rightarrow> TableBackuper \<Rightarrow> LogicalBackup \<Rightarrow> LogicalBackup \<times> error option" where
  "processDMLMessage_type e bt b =
     (case typeMsg b of
        None \<Rightarrow> (b, None)
      | Some tm \<Rightarrow>
          andThen (wrapErr ErrCouldNotWriteTypeMessage (WriteCommandDataForTable e bt tm cType b))
            (\<lambda>b. (b\<lparr>typeMsg := None\<rparr>, None)))"

definition processDMLMessage_relation ::
  "io \<Rightarrow> OID \<Rightarrow> TableBackuper \<Rightarrow> LogicalBackup \<Rightarrow> LogicalBackup \<times> error option" where
  "processDMLMessage_relation e tableOID bt b =
     (case map_of (relationMessages b) tableOID of
        None \<Rightarrow> (b, None)
      | Some relationMsg \<Rightarrow>
          andThen (wrapErr ErrCouldNotWriteRelationMessage
                     (WriteCommandDataForTable e bt relationMsg cRelation b))
            (\<lambda>b. (b\<lparr>relationMessages := AList.delete tableOID (relationMessages b)\<rparr>, None)))"

definition processDMLMessage ::
  "io \<Rightarrow> OID \<Rightarrow> cmdType \<Rightarrow> bytes \<Rightarrow> LogicalBackup \<Rightarrow> LogicalBackup \<times> error option" where
  "processDMLMessage e tableOID cmd msg b =
     (case Get tableOID b of
        (bt, ok) \<Rightarrow>
          if \<not> ok then (b, None)
          else
            andThen (processDMLMessage_begin e tableOID bt b) (\<lambda>b.
            andThen (processDMLMessage_type e bt b) (\<lambda>b.
            andThen (processDMLMessage_relation e tableOID bt b) (\<lambda>b.
            wrapErr ErrCouldNotWriteMessage (WriteCommandDataForTable e bt msg cmd b)))))"

subsection \<open>The OID-to-name history and the two files\<close>

definition maybeRegisterNewName ::
  "OID \<Rightarrow> NamespacedName \<Rightarrow> LogicalBackup \<Rightarrow> LogicalBackup \<times> error option" where
  "maybeRegisterNewName oid name b =
     (let h = history b oid;
          lastEntry = (if h \<noteq> [] then last h else \<lparr>Name = NamespacedName '''' '''', Lsn = 0\<rparr>)
      in if h = [] \<or> Name lastEntry \<noteq> name then
           let b1 = b\<lparr>nameChangeHistory :=
                        AList.update oid (h @ [\<lparr>Name = name, Lsn = transactionCommitLSN b\<rparr>])
                          (nameChangeHistory b),
                      isChanged := True\<rparr>
           in (case deref (GetIfExists oid b1) b1 of
                 None \<Rightarrow> (b1, Some PanicNilPointer)
               | Some (k, w) \<Rightarrow> (store k (SetTextID name w) b1, None))
         else (b, None))"

text \<open>
  \<open>flushOidNameMap\<close>. The deferred \<open>fp.Close()\<close> is not recorded. The error of the encoder
  is kept in \<open>err\<close> and returned at the end, unless the sync fails first.
\<close>

definition flushOidNameMap :: "io \<Rightarrow> LogicalBackup \<Rightarrow> LogicalBackup \<times> error option" where
  "flushOidNameMap e b =
     (if \<not> isChanged b then (b, None)
      else
        let dir = baseDir b;
            b1 = emit (OpenFile dir OidNameMapFile) b
        in if open_err e dir OidNameMapFile then (b1, Some ErrOpenFile)
           else
             let b2 = emit (Encode dir OidNameMapFile (NameChangeHistory (nameChangeHistory b1))) b1;
                 err = (if encode_err e dir OidNameMapFile then Some ErrEncode else None);
                 b3 = (if err = None then b2\<lparr>isChanged := False\<rparr> else b2);
                 b4 = emit (SyncFileAndDirectory dir OidNameMapFile) b3
             in if sync_err e dir OidNameMapFile then (b4, Some ErrSyncFile) else (b4, err))"

text \<open>
  \<open>writeRestartLSN\<close>. The timestamp of \<open>StateInfo\<close> is left out; a failing sync is only
  logged.
\<close>

definition writeStateTo :: "io \<Rightarrow> string \<Rightarrow> LogicalBackup \<Rightarrow> LogicalBackup \<times> error option" where
  "writeStateTo e dir b =
     (let b1 = emit (OpenFile dir stateFile) b
      in if open_err e dir stateFile then (b1, Some ErrOpenFile)
         else
           let b2 = emit (Encode dir stateFile (StateInfo (latestFlushLSN b1))) b1
           in if encode_err e dir stateFile then (b2, Some ErrEncode)
              else (emit (SyncFileAndDirectory dir stateFile) b2, None))"

definition writeRestartLSN :: "io \<Rightarrow> LogicalBackup \<Rightarrow> LogicalBackup \<times> error option" where
  "writeRestartLSN e b =
     andThen (if StagingDir (cfg b) \<noteq> '''' then writeStateTo e (StagingDir (cfg b)) b else (b, None))
       (\<lambda>b. writeStateTo e (ArchiveDir (cfg b)) b)"

text \<open>
  \<open>sendStatus\<close>. \<open>pgx.NewStandbyStatus\<close> called with one position does not fail, so the only
  error is that of \<open>SendStandbyStatus\<close>.
\<close>

definition sendStatus :: "io \<Rightarrow> LogicalBackup \<Rightarrow> LogicalBackup \<times> error option" where
  "sendStatus e b =
     (let b1 = b\<lparr>msgCnt := (\<lambda>c. 0), bytesWritten := 0\<rparr>;
          b2 = emit (SendStandbyStatus (latestFlushLSN b1)) b1
      in if send_status_err e then (b2, Some ErrSendStandbyStatus) else (b2, None))"

subsection \<open>Relation messages\<close>

text \<open>
  \<open>registerNewTable\<close> returns the flag \<open>track\<close> besides the error. The writer it registers is
  built by \<open>tablebackup.New\<close> from the configuration, the name and the OID of the message.
\<close>

definition registerNewTable ::
  "io \<Rightarrow> OID \<Rightarrow> NamespacedName \<Rightarrow> LogicalBackup \<Rightarrow> LogicalBackup \<times> bool \<times> error option" where
  "registerNewTable e oid name b =
     (if \<not> TrackNewTables (cfg b) then (b, False, None)
      else if new_table_err e oid then (b, False, Some ErrTablebackupNew)
      else (Set_table oid (tablebackup_New (DeltasPerFile (cfg b)) name oid) b, True, None))"

definition processRelationMessage_tail ::
  "OID \<Rightarrow> NamespacedName \<Rightarrow> bytes \<Rightarrow> LogicalBackup \<Rightarrow> LogicalBackup \<times> error option" where
  "processRelationMessage_tail oid name raw b =
     andThen (maybeRegisterNewName oid name b)
       (\<lambda>b. (b\<lparr>relationMessages := AList.update oid raw (relationMessages b)\<rparr>, None))"

definition processRelationMessage ::
  "io \<Rightarrow> OID \<Rightarrow> NamespacedName \<Rightarrow> bytes \<Rightarrow> LogicalBackup \<Rightarrow> LogicalBackup \<times> error option" where
  "processRelationMessage e oid name raw b =
     (case Get oid b of
        (t, isRegistered) \<Rightarrow>
          if \<not> isRegistered then
            (case registerNewTable e oid name b of
               (b1, track, err) \<Rightarrow>
                 if \<not> track \<or> err \<noteq> None then
                   (if err \<noteq> None then (b1, Some ErrCouldNotAddBackupProcess) else (b1, None))
                 else processRelationMessage_tail oid name raw b1)
          else processRelationMessage_tail oid name raw b)"

subsection \<open>The handler\<close>

text \<open>
  \<open>getNextFlushLSN\<close>: the closure passed to \<open>Map\<close> updates \<open>result\<close>, which starts as the
  commit LSN of the transaction.
\<close>

definition getNextFlushLSN :: "LogicalBackup \<Rightarrow> LSN" where
  "getNextFlushLSN b =
     Map_tables
       (\<lambda>table result.
          case GetFlushLSN table of
            (flushLSN, isFlushRequired) \<Rightarrow>
              if isFlushRequired \<and> flushLSN < result then flushLSN else result)
       b (transactionCommitLSN b)"

text \<open>The loop of the commit branch over the keys of \<open>txBeginRelMsg\<close>.\<close>

fun commitLoop :: "io \<Rightarrow> bytes \<Rightarrow> OID list \<Rightarrow> LogicalBackup \<Rightarrow> LogicalBackup \<times> error option" where
  "commitLoop e raw [] b = (b, None)"
| "commitLoop e raw (relOID # rest) b =
     andThen (WriteCommandDataForTable e (GetIfExists relOID b) raw cCommit b)
       (commitLoop e raw rest)"

text \<open>
  The block of the commit branch that recomputes the flush LSN. The error of
  \<open>writeRestartLSN\<close> is logged and dropped; that of \<open>sendStatus\<close> is logged too, but it is
  assigned to the handler's own \<open>err\<close>, which the handler returns.
\<close>

definition advanceFlushLSN :: "io \<Rightarrow> LogicalBackup \<Rightarrow> LogicalBackup \<times> error option" where
  "advanceFlushLSN e b =
     (let candidateFlushLSN = getNextFlushLSN b
      in if candidateFlushLSN > latestFlushLSN b then
           let b1 = b\<lparr>latestFlushLSN := candidateFlushLSN\<rparr>;
               b2 = fst (writeRestartLSN e b1)
           in sendStatus e b2
         else (b, None))"

text \<open>
  \<open>updateMetricsOnCommit\<close> changes no field of the engine (the metrics sink is opaque), but
  it calls \<open>ID\<close> through the reference that \<open>GetIfExists\<close> returns for every participating
  OID.
\<close>

definition updateMetricsOnCommit :: "LogicalBackup \<Rightarrow> LogicalBackup \<times> error option" where
  "updateMetricsOnCommit b =
     (if list_all (\<lambda>relOID. deref (GetIfExists relOID b) b \<noteq> None) (participating b)
      then (b, None) else (b, Some PanicNilPointer))"

definition handleCommit :: "io \<Rightarrow> LSN \<Rightarrow> bytes \<Rightarrow> LogicalBackup \<Rightarrow> LogicalBackup \<times> error option" where
  "handleCommit e lsn raw b =
     (let b1 = b\<lparr>currentLSN := lsn\<rparr>
      in andThen (commitLoop e raw (participating b1) b1)
           (\<lambda>b2. let b3 = fst (flushOidNameMap e b2)
                 in case advanceFlushLSN e b3 of
                      (b4, err) \<Rightarrow>
                        (case updateMetricsOnCommit b4 of
                           (b5, Some p) \<Rightarrow> (b5, Some p)
                         | (b5, None) \<Rightarrow> (b5, err))))"

definition handler :: "io \<Rightarrow> message \<Rightarrow> LSN \<Rightarrow> LogicalBackup \<Rightarrow> LogicalBackup \<times> error option" where
  "handler e m walStart b0 =
     (let b = b0\<lparr>currentLSN := walStart\<rparr>
      in case m of
           Relation oid name raw \<Rightarrow> processRelationMessage e oid name raw b
         | Insert oid raw \<Rightarrow> processDMLMessage e oid cInsert raw b
         | Update oid raw \<Rightarrow> processDMLMessage e oid cUpdate raw b
         | Delete oid raw \<Rightarrow> processDMLMessage e oid cDelete raw b
         | Begin xid finalLSN raw \<Rightarrow>
             (b\<lparr>lastTxId := xid, transactionCommitLSN := finalLSN,
                txBeginRelMsg := Some [], beginMsg := raw\<rparr>, None)
         | Commit lsn raw ts \<Rightarrow> handleCommit e lsn raw b
         | Origin \<Rightarrow> (b, None)
         | Truncate \<Rightarrow> (b, None)
         | Type raw \<Rightarrow> (b, None))"

subsection \<open>The receive loop\<close>

text \<open>
  One turn of the \<open>for\<close>/\<open>select\<close> of \<open>logicalDecoding\<close>. The environment chooses the
  branch: the context is done, the ticker fired, or (default) the wait for a replication
  message ended. A replication message carries a WAL message (\<open>WalStart\<close>, \<open>WalData\<close>) or a
  server heartbeat (whether \<open>ReplyRequested == 1\<close>). \<open>decoder.Parse\<close> is a parameter:
  \<open>None\<close> stands for its error.
\<close>

datatype recv =
    DeadlineExceeded
  | Canceled
  | RecvError
  | NilMessage
  | ReplicationMessage "(LSN \<times> bytes) option" "bool option"

datatype loop_event = CtxDone | Tick | Default recv

text \<open>
  How a turn ends: the loop goes on, the function returns, the function signals \<open>stopCh\<close>
  and returns, or the goroutine panics.
\<close>

datatype outcome = Continue | Return | Stop | Panicked

definition onWalMessage ::
  "(bytes \<Rightarrow> message option) \<Rightarrow> io \<Rightarrow> LSN \<Rightarrow> bytes \<Rightarrow> LogicalBackup \<Rightarrow>
   LogicalBackup \<times> outcome option" where
  "onWalMessage parse e walStart walData b =
     (if IsValid walStart \<and> walStart \<le> latestFlushLSN b then (b, Some Continue)
      else case parse walData of
        None \<Rightarrow> (b, Some Stop)
      | Some logmsg \<Rightarrow>
          (case handler e logmsg walStart b of
             (b', Some err) \<Rightarrow> (b', Some (if is_panic err then Panicked else Stop))
           | (b', None) \<Rightarrow> (b', None)))"

definition onHeartbeat :: "io \<Rightarrow> bool option \<Rightarrow> LogicalBackup \<Rightarrow> LogicalBackup \<times> outcome" where
  "onHeartbeat e hb b =
     (if hb = Some True then
        (case sendStatus e b of (b', Some err) \<Rightarrow> (b', Stop) | (b', None) \<Rightarrow> (b', Continue))
      else (b, Continue))"

definition loopBody ::
  "(bytes \<Rightarrow> message option) \<Rightarrow> io \<Rightarrow> loop_event \<Rightarrow> LogicalBackup \<Rightarrow> LogicalBackup \<times> outcome" where
  "loopBody parse e ev b =
     (case ev of
        CtxDone \<Rightarrow> (b, Return)
      | Tick \<Rightarrow>
          (case sendStatus e b of (b', Some err) \<Rightarrow> (b', Stop) | (b', None) \<Rightarrow> (b', Continue))
      | Default DeadlineExceeded \<Rightarrow> (b, Continue)
      | Default Canceled \<Rightarrow> (b, Return)
      | Default RecvError \<Rightarrow> (b, Stop)
      | Default NilMessage \<Rightarrow> (b, Continue)
      | Default (ReplicationMessage wal hb) \<Rightarrow>
          (case (case wal of
                   None \<Rightarrow> (b, None)
                 | Some (walStart, walData) \<Rightarrow> onWalMessage parse e walStart walData b) of
             (b', Some oc) \<Rightarrow> (b', oc)
           | (b', None) \<Rightarrow> onHeartbeat e hb b'))"

text \<open>
  The loop over a finite sequence of turns, each with the answers of the environment during
  it; \<open>Continue\<close> at the end means the loop is still running. \<open>logicalDecoding\<close> first starts
  replication, and signals \<open>stopCh\<close> when that fails.
\<close>

fun loop ::
  "(bytes \<Rightarrow> message option) \<Rightarrow> (io \<times> loop_event) list \<Rightarrow> LogicalBackup \<Rightarrow> LogicalBackup \<times> outcome" where
  "loop parse [] b = (b, Continue)"
| "loop parse ((e, ev) # rest) b =
     (case loopBody parse e ev b of
        (b', Continue) \<Rightarrow> loop parse rest b'
      | (b', oc) \<Rightarrow> (b', oc))"

definition logicalDecoding ::
  "bool \<Rightarrow> (bytes \<Rightarrow> message option) \<Rightarrow> (io \<times> loop_event) list \<Rightarrow> LogicalBackup \<Rightarrow>
   LogicalBackup \<times> outcome" where
  "logicalDecoding start_ok parse evs b = (if \<not> start_ok then (b, Stop) else loop parse evs b)"

subsection \<open>Start-up\<close>

text \<open>
  What the database and the file system answer during \<open>New\<close>: whether the directories can be
  made, the two connections opened and the publication ensured; the LSN and the error of
  \<open>dbutils.GetSlotFlushLSN\<close>; the consistent point returned by \<open>dbutils.CreateSlot\<close>
  (\<open>None\<close> for its error); what reading the state file finds; the rows of the catalogue query
  on the publication's tables; which \<open>ALTER TABLE\<close> statements succeed; and whether the
  metrics can be registered.
\<close>

datatype ReplicaIdentity =
    ReplicaIdentityDefault
  | ReplicaIdentityNothing
  | ReplicaIdentityFull
  | ReplicaIdentityIndex

record tableInfo =
  ti_oid :: OID
  ti_name :: NamespacedName
  hasPK :: bool
  replicaIdentity :: ReplicaIdentity

datatype state_file_read = StatNotExist | OpenFails | DecodeFails | ParseLSNFails | CurrentLSN LSN

record startup =
  create_dirs_ok :: bool
  repl_connect_ok :: bool
  connect_ok :: bool
  publication_ok :: bool
  slot_flush_lsn :: LSN
  slot_flush_ok :: bool
  create_slot :: "LSN option"
  state_file :: state_file_read
  query_ok :: bool
  scan_ok :: bool
  rows :: "tableInfo list"
  alter_ok :: "OID \<Rightarrow> bool"
  register_metrics_ok :: bool

definition readRestartLSN :: "state_file_read \<Rightarrow> error + LSN" where
  "readRestartLSN f =
     (case f of
        StatNotExist \<Rightarrow> Inr InvalidLSN
      | OpenFails \<Rightarrow> Inl ErrOpenFile
      | DecodeFails \<Rightarrow> Inl ErrEncode
      | ParseLSNFails \<Rightarrow> Inl ErrEncode
      | CurrentLSN l \<Rightarrow> Inr l)"

text \<open>The loop of \<open>prepareTablesForPublication\<close> over the tables of the publication.\<close>

fun registerTables ::
  "startup \<Rightarrow> io \<Rightarrow> tableInfo list \<Rightarrow> LogicalBackup \<Rightarrow> LogicalBackup \<times> error option" where
  "registerTables d e [] b = (b, None)"
| "registerTables d e (t # ts) b =
     (let targetReplicaIdentity =
            (if hasPK t then ReplicaIdentityDefault
             else if replicaIdentity t \<noteq> ReplicaIdentityIndex then ReplicaIdentityFull
             else replicaIdentity t)
      in if targetReplicaIdentity \<noteq> replicaIdentity t \<and> \<not> alter_ok d (ti_oid t)
         then (b, Some ErrCouldNotSetReplicaIdentity)
         else if new_table_err e (ti_oid t) then (b, Some ErrCouldNotCreateTablebackup)
         else
           andThen
             (maybeRegisterNewName (ti_oid t) (ti_name t)
                (Set_table (ti_oid t)
                   (tablebackup_New (DeltasPerFile (cfg b)) (ti_name t) (ti_oid t)) b))
             (registerTables d e ts))"

definition prepareTablesForPublication ::
  "startup \<Rightarrow> io \<Rightarrow> LogicalBackup \<Rightarrow> LogicalBackup \<times> error option" where
  "prepareTablesForPublication d e b =
     (if \<not> query_ok d then (b, Some ErrCouldNotExecuteQuery)
      else if \<not> scan_ok d then (b, Some ErrCouldNotFetchRowValues)
      else if rows d = [] \<and> \<not> TrackNewTables (cfg b) then (b, Some ErrNoTablesFound)
      else andThen (registerTables d e (rows d) b) (\<lambda>b. (fst (flushOidNameMap e b), None)))"

text \<open>
  \<open>prepareDB\<close>. The branch taken when the slot does not exist sets
  \<open>b.latestFlushLSN = initialLSN - 1\<close>, an unsigned 64-bit subtraction.
\<close>

definition prepareDB_slot :: "startup \<Rightarrow> io \<Rightarrow> LogicalBackup \<Rightarrow> LogicalBackup \<times> error option" where
  "prepareDB_slot d e b =
     (let slotExists = IsValid (latestFlushLSN b)
      in if \<not> slotExists then
           (case create_slot d of
              None \<Rightarrow> (b, Some ErrCouldNotCreateSlot)
            | Some initialLSN \<Rightarrow>
                (fst (writeRestartLSN e (b\<lparr>latestFlushLSN := initialLSN - 1\<rparr>)), None))
         else
           (case readRestartLSN (state_file d) of
              Inl err \<Rightarrow> (b, Some ErrCouldNotReadPreviousFlushLSN)
            | Inr restartLSN \<Rightarrow>
                (fst (sendStatus e
                        (if IsValid restartLSN then b\<lparr>latestFlushLSN := restartLSN\<rparr> else b)),
                 None)))"

definition prepareDB :: "startup \<Rightarrow> io \<Rightarrow> LogicalBackup \<Rightarrow> LogicalBackup \<times> error option" where
  "prepareDB d e b =
     (if \<not> connect_ok d then (b, Some ErrCouldNotConnect)
      else if \<not> publication_ok d then (b, Some ErrCreateMissingPublication)
      else
        let b1 = b\<lparr>latestFlushLSN := slot_flush_lsn d\<rparr>
        in if \<not> slot_flush_ok d then (b1, Some ErrCouldNotInitSlot)
           else andThen (prepareDB_slot d e b1)
                  (\<lambda>b. wrapErr ErrCouldNotPrepareTables (prepareTablesForPublication d e b)))"

text \<open>The struct literal of \<open>New\<close>: every field not named there has its zero value.\<close>

definition newLogicalBackup :: "EngineConfig \<Rightarrow> LogicalBackup" where
  "newLogicalBackup c =
     \<lparr>cfg = c, backupTables = [], isChanged = False, nameChangeHistory = [],
      currentLSN = 0, transactionCommitLSN = 0, latestFlushLSN = 0, lastTxId = 0,
      msgCnt = (\<lambda>c. 0), bytesWritten = 0, txBeginRelMsg = None, relationMessages = [],
      beginMsg = [], typeMsg = None, effects = []\<rparr>"

definition New :: "startup \<Rightarrow> io \<Rightarrow> EngineConfig \<Rightarrow> LogicalBackup \<times> error option" where
  "New d e c =
     (let lb = newLogicalBackup c
      in if \<not> create_dirs_ok d then (lb, Some ErrCreateDirs)
         else if \<not> repl_connect_ok d then (lb, Some ErrReplicationConnect)
         else andThen (prepareDB d e lb)
                (\<lambda>lb. if \<not> register_metrics_ok d then (lb, Some ErrRegisterMetrics)
                       else (lb, None)))"

section \<open>Notions used in the statements\<close>

text \<open>
  Handling a sequence of messages, each with the answers of the environment while it is
  handled and with its \<open>WalStart\<close>. The sequence ends at the first error, as the receive loop
  does.
\<close>

fun handleAll :: "(io \<times> message \<times> LSN) list \<Rightarrow> LogicalBackup \<Rightarrow> LogicalBackup \<times> error option" where
  "handleAll [] b = (b, None)"
| "handleAll ((e, m, walStart) # rest) b = andThen (handler e m walStart b) (handleAll rest)"

text \<open>
  The writer the registry holds for an OID, and the stream of a table: the frames its writer
  has appended (none when the table has no writer).
\<close>

definition writer :: "LogicalBackup \<Rightarrow> OID \<Rightarrow> TableBackup option" where
  "writer b oid = map_of (backupTables b) oid"

definition stream :: "LogicalBackup \<Rightarrow> OID \<Rightarrow> (LSN \<times> bytes) list" where
  "stream b oid = (case writer b oid of None \<Rightarrow> [] | Some t \<Rightarrow> records t)"

text \<open>
  The registry holds every writer under the writer's own OID (\<open>New\<close> and
  \<open>registerNewTable\<close> register a writer under the OID they build it with), every
  participating OID has a writer and occurs once among the keys of \<open>txBeginRelMsg\<close>, and no
  type message is stashed.
\<close>

definition registry_ok :: "LogicalBackup \<Rightarrow> bool" where
  "registry_ok b = list_all (\<lambda>(k, t). ID t = k) (backupTables b)"

definition engine_inv :: "LogicalBackup \<Rightarrow> bool" where
  "engine_inv b =
     (registry_ok b \<and> list_all (\<lambda>oid. writer b oid \<noteq> None) (participating b) \<and>
      distinct (participating b) \<and> typeMsg b = None)"

text \<open>The messages that occur inside a transaction, between its Begin and its Commit.\<close>

fun in_transaction :: "message \<Rightarrow> bool" where
  "in_transaction (Begin xid finalLSN raw) = False"
| "in_transaction (Commit lsn raw ts) = False"
| "in_transaction m = True"

text \<open>
  The segment of one table, as the claim on transactions describes it. The view of a table
  has three parts: whether the table has a writer, whether the begin record of the current
  transaction has been written to it, and the relation message pending for it. A relation
  message for the table becomes pending (and gives the table a writer when new tables are
  tracked); a DML for the table, once it has a writer, contributes the begin record if it is
  the first, the pending relation record if there is one, and the DML record, all tagged
  with the \<open>WalStart\<close> of the DML. Everything else contributes nothing.
\<close>

record table_view =
  tracked :: bool
  begun :: bool
  pending :: "bytes option"

definition dml_records ::
  "bytes \<Rightarrow> table_view \<Rightarrow> bytes \<Rightarrow> LSN \<Rightarrow> (LSN \<times> bytes) list \<times> table_view" where
  "dml_records beginRaw v raw walStart =
     (if tracked v then
        ((if begun v then [] else [(walStart, beginRaw)]) @
         (case pending v of None \<Rightarrow> [] | Some rel \<Rightarrow> [(walStart, rel)]) @
         [(walStart, raw)],
         v\<lparr>begun := True, pending := None\<rparr>)
      else ([], v))"

fun segment_step ::
  "OID \<Rightarrow> bool \<Rightarrow> bytes \<Rightarrow> table_view \<Rightarrow> message \<Rightarrow> LSN \<Rightarrow> (LSN \<times> bytes) list \<times> table_view" where
  "segment_step oid trackNew beginRaw v (Relation oid' name raw) walStart =
     (if oid' = oid \<and> (tracked v \<or> trackNew) then ([], v\<lparr>tracked := True, pending := Some raw\<rparr>)
      else ([], v))"
| "segment_step oid trackNew beginRaw v (Insert oid' raw) walStart =
     (if oid' = oid then dml_records beginRaw v raw walStart else ([], v))"
| "segment_step oid trackNew beginRaw v (Update oid' raw) walStart =
     (if oid' = oid then dml_records beginRaw v raw walStart else ([], v))"
| "segment_step oid trackNew beginRaw v (Delete oid' raw) walStart =
     (if oid' = oid then dml_records beginRaw v raw walStart else ([], v))"
| "segment_step oid trackNew beginRaw v m walStart = ([], v)"

fun segment ::
  "OID \<Rightarrow> bool \<Rightarrow> bytes \<Rightarrow> table_view \<Rightarrow> (io \<times> message \<times> LSN) list \<Rightarrow>
   (LSN \<times> bytes) list \<times> table_view" where
  "segment oid trackNew beginRaw v [] = ([], v)"
| "segment oid trackNew beginRaw v ((e, m, walStart) # rest) =
     (let r = segment_step oid trackNew beginRaw v m walStart;
          rs = segment oid trackNew beginRaw (snd r) rest
      in (fst r @ fst rs, snd rs))"

definition view_of :: "LogicalBackup \<Rightarrow> OID \<Rightarrow> table_view" where
  "view_of b oid =
     \<lparr>tracked = (writer b oid \<noteq> None), begun = (oid \<in> set (participating b)),
      pending = map_of (relationMessages b) oid\<rparr>"

text \<open>
  The commit LSNs announced by the Begin messages of a sequence do not decrease, starting
  from a given LSN: the server sends transactions in the order of their commits.
\<close>

fun commit_order :: "LSN \<Rightarrow> (io \<times> message \<times> LSN) list \<Rightarrow> bool" where
  "commit_order l [] = True"
| "commit_order l ((e, Begin xid finalLSN raw, walStart) # rest) =
     (l \<le> finalLSN \<and> commit_order finalLSN rest)"
| "commit_order l ((e, m, walStart) # rest) = commit_order l rest"

text \<open>
  The history of every OID has no two adjacent entries with the same name, its LSNs do not
  decrease, and none of them exceeds the commit LSN of the current transaction.
\<close>

definition history_ok :: "LogicalBackup \<Rightarrow> bool" where
  "history_ok b =
     list_all (\<lambda>(oid, h). distinct_adj (map Name h) \<and> sorted (map Lsn h) \<and>
                           list_all (\<lambda>x. Lsn x \<le> transactionCommitLSN b) h)
       (nameChangeHistory b)"

text \<open>Whether an effect is a call on the file with a given base name.\<close>

fun on_file :: "string \<Rightarrow> effect \<Rightarrow> bool" where
  "on_file f (OpenFile dir file) = (file = f)"
| "on_file f (Encode dir file doc) = (file = f)"
| "on_file f (SyncFileAndDirectory dir file) = (file = f)"
| "on_file f (SendStandbyStatus l) = False"

text \<open>The flush LSNs that cap the candidate: those of the writers that need a flush.\<close>

definition capping :: "LogicalBackup \<Rightarrow> LSN set" where
  "capping b = {fst (GetFlushLSN t) | t. t \<in> snd ` set (backupTables b) \<and> snd (GetFlushLSN t)}"

section \<open>Example inputs\<close>

text \<open>
  A configuration file that asks for an inactivity interval of 30 seconds, and one that asks
  for 90 seconds.
\<close>

definition example_config :: Config where
  "example_config =
     \<lparr>TempDir = ''/tmp'', Tables = [], Slotname = ''slot'', PublicationName = ''pub'',
      TrackNewTables = True, DeltasPerFile = 100, BackupThreshold = 0,
      ConcurrentBasebackups = 1, InitialBasebackup = False, SendStatusOnCommit = False,
      Fsync = True, ArchiveDir = ''/archive'',
      ForceBasebackupAfterInactivityInterval = 30 * Second, ArchiverTimeout = 0\<rparr>"

definition example_config_90s :: Config where
  "example_config_90s = example_config\<lparr>ForceBasebackupAfterInactivityInterval := 90 * Second\<rparr>"

text \<open>
  An engine with a staging and an archive directory, an environment in which nothing fails,
  and a start-up that finds no slot, creates one with consistent point \<open>0x51\<close> and finds one
  table, \<open>public.t\<close> with OID 1, in the publication.
\<close>

definition example_cfg :: EngineConfig where
  "example_cfg =
     \<lparr>TempDir = '''', Tables = [], Slotname = '''', PublicationName = ''pub'',
      TrackNewTables = True, DeltasPerFile = 100, BackupThreshold = 0,
      ConcurrentBasebackups = 1, InitialBasebackup = False, SendStatusOnCommit = False,
      Fsync = True, ArchiveDir = ''/archive'',
      ForceBasebackupAfterInactivityInterval = 0, ArchiverTimeout = 0,
      StagingDir = ''/staging'', SlotName = ''slot''\<rparr>"

definition io_ok :: io where
  "io_ok =
     \<lparr>write_delta_err = (\<lambda>c k. False), new_table_err = (\<lambda>k. False),
      open_err = (\<lambda>d f. False), encode_err = (\<lambda>d f. False), sync_err = (\<lambda>d f. False),
      send_status_err = False\<rparr>"

definition example_startup :: startup where
  "example_startup =
     \<lparr>create_dirs_ok = True, repl_connect_ok = True, connect_ok = True, publication_ok = True,
      slot_flush_lsn = 0, slot_flush_ok = True, create_slot = Some 0x51,
      state_file = StatNotExist, query_ok = True, scan_ok = True,
      rows = [\<lparr>ti_oid = 1, ti_name = NamespacedName ''public'' ''t'', hasPK = True,
               replicaIdentity = ReplicaIdentityDefault\<rparr>],
      alter_ok = (\<lambda>k. True), register_metrics_ok = True\<rparr>"

definition example_engine :: LogicalBackup where
  "example_engine = fst (New example_startup io_ok example_cfg)"

text \<open>
  A transaction that inserts one row into table 1, with a type message before the relation
  message, and a transaction that changes no tracked table.
\<close>

definition example_tx :: "(io \<times> message \<times> LSN) list" where
  "example_tx =
     [(io_ok, Begin 7 0x100 [1], 0x90),
      (io_ok, Type [9], 0x91),
      (io_ok, Relation 1 (NamespacedName ''public'' ''t'') [2], 0x92),
      (io_ok, Insert 1 [3], 0x93),
      (io_ok, Commit 0x100 [4] 0, 0x108)]"

definition example_empty_tx :: "(io \<times> message \<times> LSN) list" where
  "example_empty_tx =
     [(io_ok, Begin 8 0x200 [5], 0x190),
      (io_ok, Commit 0x200 [6] 0, 0x208)]"

text \<open>
  The messages, up to the last insert, of a transaction in which table 1 is renamed twice,
  with an insert after each renaming.
\<close>

definition example_renames :: "(io \<times> message \<times> LSN) list" where
  "example_renames =
     [(io_ok, Begin 9 0x300 [7], 0x290),
      (io_ok, Relation 1 (NamespacedName ''public'' ''u'') [8], 0x291),
      (io_ok, Insert 1 [11], 0x292),
      (io_ok, Relation 1 (NamespacedName ''public'' ''v'') [12], 0x293),
      (io_ok, Insert 1 [13], 0x294)]"

text \<open>
  The engine after the Begin of the transaction that changes no tracked table, and the
  engine after the Begin and the relation message of a transaction that renames table 1 to
  \<open>public.u\<close>; the Commit message of that transaction.
\<close>

definition example_begun :: LogicalBackup where
  "example_begun = fst (handler io_ok (Begin 8 0x200 [5]) 0x190 example_engine)"

definition example_renamed :: LogicalBackup where
  "example_renamed =
     fst (handleAll
            [(io_ok, Begin 9 0x300 [7], 0x290),
             (io_ok, Relation 1 (NamespacedName ''public'' ''u'') [8], 0x291)]
            example_engine)"

definition example_commit :: message where
  "example_commit = Commit 0x300 [10] 0"

section \<open>The configuration loader: properties\<close>

lemma Minute_pos: "0 < Minute"
  by (simp add: Minute_def Second_def Nanosecond_def)

lemma Truncate_Minute_eq: "Truncate_Duration d (1 * Minute) = Minute * (d sdiv Minute)"
  using Minute_pos by (simp add: Truncate_Duration_def minus_smod_eq_mult_sdiv)

lemma sdiv_ge_one_iff:
  fixes d m :: int
  assumes "0 < m"
  shows "1 \<le> d sdiv m \<longleftrightarrow> m \<le> d"
proof (cases "0 \<le> d")
  case True
  then have "d sdiv m = d div m"
    using assms by (simp add: signed_divide_int_def sgn_if)
  moreover have "1 \<le> d div m \<longleftrightarrow> m \<le> d"
    using assms by (metis int_one_le_iff_zero_less pos_imp_zdiv_pos_iff)
  ultimately show ?thesis by simp
next
  case False
  then have "d sdiv m = - (\<bar>d\<bar> div m)"
    using assms by (simp add: signed_divide_int_def sgn_if)
  moreover have "0 \<le> \<bar>d\<bar> div m"
    using assms by (simp add: pos_imp_zdiv_nonneg_iff)
  ultimately show ?thesis using False assms by linarith
qed

lemma Truncate_abs_le: "\<bar>Truncate_Duration d (1 * Minute)\<bar> \<le> \<bar>d\<bar>"
proof -
  have "Minute * (\<bar>d\<bar> div Minute) + \<bar>d\<bar> mod Minute = \<bar>d\<bar>"
    by simp
  moreover have "0 \<le> \<bar>d\<bar> mod Minute"
    using Minute_pos by simp
  ultimately have le: "Minute * (\<bar>d\<bar> div Minute) \<le> \<bar>d\<bar>"
    by linarith
  have nonneg: "0 \<le> \<bar>d\<bar> div Minute"
    using Minute_pos by (simp add: pos_imp_zdiv_nonneg_iff)
  have "\<bar>Minute * (d sdiv Minute)\<bar> = Minute * (\<bar>d\<bar> div Minute) \<or> Minute * (d sdiv Minute) = 0"
    using Minute_pos nonneg by (auto simp: signed_divide_int_def sgn_if abs_mult)
  then show ?thesis
    using le by (auto simp: Truncate_Minute_eq simp del: mult_1)
qed

text \<open>
  Claim C9, as amended. For every configuration file the loader accepts, the resulting
  \<open>ForceBasebackupAfterInactivityInterval\<close> is the configured duration truncated towards zero
  to whole minutes: a multiple of a minute, no larger in magnitude than what was configured.
  It is at least one minute exactly when the configured duration is; a shorter configured
  interval becomes zero.
\<close>

theorem config_interval_truncated:
  assumes "New_config open_ok decoded = Inr c"
  shows "\<exists>c0. decoded = Some c0 \<and>
           ForceBasebackupAfterInactivityInterval c =
             Truncate_Duration (ForceBasebackupAfterInactivityInterval c0) (1 * Minute) \<and>
           ForceBasebackupAfterInactivityInterval c =
             Minute * (ForceBasebackupAfterInactivityInterval c0 sdiv Minute) \<and>
           \<bar>ForceBasebackupAfterInactivityInterval c\<bar> \<le> \<bar>ForceBasebackupAfterInactivityInterval c0\<bar> \<and>
           (Minute \<le> ForceBasebackupAfterInactivityInterval c \<longleftrightarrow>
            Minute \<le> ForceBasebackupAfterInactivityInterval c0)"
proof -
  from assms obtain c0 where d: "decoded = Some c0"
    and c: "c = c0\<lparr>ForceBasebackupAfterInactivityInterval :=
                 Truncate_Duration (ForceBasebackupAfterInactivityInterval c0) (1 * Minute)\<rparr>"
    by (auto simp: New_config_def split: if_splits option.splits)
  have "Minute \<le> Minute * (x sdiv Minute) \<longleftrightarrow> Minute \<le> x" for x
    using sdiv_ge_one_iff[OF Minute_pos, of x] Minute_pos by simp
  then show ?thesis
    using d c Truncate_abs_le[of "ForceBasebackupAfterInactivityInterval c0"]
    by (simp add: Truncate_Minute_eq del: mult_1)
qed

theorem config_interval_truncated_witness:
  "New_config True (Some example_config_90s) =
     Inr (example_config_90s\<lparr>ForceBasebackupAfterInactivityInterval := 60 * Second\<rparr>) \<and>
   ForceBasebackupAfterInactivityInterval
     (example_config_90s\<lparr>ForceBasebackupAfterInactivityInterval := 60 * Second\<rparr>) = Minute"
proof -
  have h: "New_config True (Some example_config_90s) =
     Inr (example_config_90s\<lparr>ForceBasebackupAfterInactivityInterval := 60 * Second\<rparr>)"
    by (simp add: New_config_def example_config_90s_def example_config_def Truncate_Duration_def
        Minute_def Second_def Nanosecond_def signed_modulo_int_def)
  show ?thesis
    using config_interval_truncated[OF h] h by (simp add: Minute_def)
qed

text \<open>
  Claim C9 as stated fails: a configuration file with an interval of 30 seconds is accepted and
  the resulting interval is zero, which is less than one minute.
\<close>

theorem config_interval_below_minute:
  "New_config True (Some example_config) =
     Inr (example_config\<lparr>ForceBasebackupAfterInactivityInterval := 0\<rparr>) \<and>
   \<not> Minute \<le> ForceBasebackupAfterInactivityInterval
                (example_config\<lparr>ForceBasebackupAfterInactivityInterval := 0\<rparr>)"
  by (simp add: New_config_def example_config_def Truncate_Duration_def
        Minute_def Second_def Nanosecond_def signed_modulo_int_def)

section \<open>Basic lemmas about the engine\<close>

lemma fst_andThen: "fst (andThen r g) = (if snd r = None then fst (g (fst r)) else fst r)"
  by (cases r) (auto simp: andThen_def split: option.splits)

lemma snd_andThen: "snd (andThen r g) = (if snd r = None then snd (g (fst r)) else snd r)"
  by (cases r) (auto simp: andThen_def split: option.splits)

lemma fst_wrapErr: "fst (wrapErr x r) = fst r"
  by (cases r) (auto simp: wrapErr_def split: option.splits)

lemma snd_wrapErr_None: "(snd (wrapErr x r) = None) = (snd r = None)"
  by (cases r) (auto simp: wrapErr_def split: option.splits)

lemmas seq_simps = fst_andThen snd_andThen fst_wrapErr snd_wrapErr_None

lemma participating_update [simp]:
  "participating (b\<lparr>currentLSN := l\<rparr>) = participating b"
  by (simp add: participating_def)

lemma WriteCommandDataForTable_frame [simp]:
  "cfg (fst (WriteCommandDataForTable e t msg cmd b)) = cfg b"
  "latestFlushLSN (fst (WriteCommandDataForTable e t msg cmd b)) = latestFlushLSN b"
  "transactionCommitLSN (fst (WriteCommandDataForTable e t msg cmd b)) = transactionCommitLSN b"
  "typeMsg (fst (WriteCommandDataForTable e t msg cmd b)) = typeMsg b"
  "beginMsg (fst (WriteCommandDataForTable e t msg cmd b)) = beginMsg b"
  "effects (fst (WriteCommandDataForTable e t msg cmd b)) = effects b"
  "nameChangeHistory (fst (WriteCommandDataForTable e t msg cmd b)) = nameChangeHistory b"
  "isChanged (fst (WriteCommandDataForTable e t msg cmd b)) = isChanged b"
  "txBeginRelMsg (fst (WriteCommandDataForTable e t msg cmd b)) = txBeginRelMsg b"
  "relationMessages (fst (WriteCommandDataForTable e t msg cmd b)) = relationMessages b"
  "currentLSN (fst (WriteCommandDataForTable e t msg cmd b)) = currentLSN b"
  by (simp_all add: WriteCommandDataForTable_def store_def case_prod_beta split: option.splits sum.splits)

lemma processDMLMessage_begin_frame [simp]:
  "cfg (fst (processDMLMessage_begin e tableOID bt b)) = cfg b"
  "latestFlushLSN (fst (processDMLMessage_begin e tableOID bt b)) = latestFlushLSN b"
  "transactionCommitLSN (fst (processDMLMessage_begin e tableOID bt b)) = transactionCommitLSN b"
  "typeMsg (fst (processDMLMessage_begin e tableOID bt b)) = typeMsg b"
  "beginMsg (fst (processDMLMessage_begin e tableOID bt b)) = beginMsg b"
  "effects (fst (processDMLMessage_begin e tableOID bt b)) = effects b"
  "nameChangeHistory (fst (processDMLMessage_begin e tableOID bt b)) = nameChangeHistory b"
  "isChanged (fst (processDMLMessage_begin e tableOID bt b)) = isChanged b"
  "relationMessages (fst (processDMLMessage_begin e tableOID bt b)) = relationMessages b"
  "currentLSN (fst (processDMLMessage_begin e tableOID bt b)) = currentLSN b"
  by (simp_all add: processDMLMessage_begin_def seq_simps case_prod_beta split: option.splits)

lemma processDMLMessage_type_frame [simp]:
  "cfg (fst (processDMLMessage_type e bt b)) = cfg b"
  "latestFlushLSN (fst (processDMLMessage_type e bt b)) = latestFlushLSN b"
  "transactionCommitLSN (fst (processDMLMessage_type e bt b)) = transactionCommitLSN b"
  "beginMsg (fst (processDMLMessage_type e bt b)) = beginMsg b"
  "effects (fst (processDMLMessage_type e bt b)) = effects b"
  "nameChangeHistory (fst (processDMLMessage_type e bt b)) = nameChangeHistory b"
  "isChanged (fst (processDMLMessage_type e bt b)) = isChanged b"
  "txBeginRelMsg (fst (processDMLMessage_type e bt b)) = txBeginRelMsg b"
  "relationMessages (fst (processDMLMessage_type e bt b)) = relationMessages b"
  "currentLSN (fst (processDMLMessage_type e bt b)) = currentLSN b"
  by (simp_all add: processDMLMessage_type_def seq_simps split: option.splits)

lemma processDMLMessage_relation_frame [simp]:
  "cfg (fst (processDMLMessage_relation e tableOID bt b)) = cfg b"
  "latestFlushLSN (fst (processDMLMessage_relation e tableOID bt b)) = latestFlushLSN b"
  "transactionCommitLSN (fst (processDMLMessage_relation e tableOID bt b)) = transactionCommitLSN b"
  "typeMsg (fst (processDMLMessage_relation e tableOID bt b)) = typeMsg b"
  "beginMsg (fst (processDMLMessage_relation e tableOID bt b)) = beginMsg b"
  "effects (fst (processDMLMessage_relation e tableOID bt b)) = effects b"
  "nameChangeHistory (fst (processDMLMessage_relation e tableOID bt b)) = nameChangeHistory b"
  "isChanged (fst (processDMLMessage_relation e tableOID bt b)) = isChanged b"
  "txBeginRelMsg (fst (processDMLMessage_relation e tableOID bt b)) = txBeginRelMsg b"
  "currentLSN (fst (processDMLMessage_relation e tableOID bt b)) = currentLSN b"
  by (simp_all add: processDMLMessage_relation_def seq_simps split: option.splits)

lemma processDMLMessage_frame [simp]:
  "cfg (fst (processDMLMessage e tableOID cmd msg b)) = cfg b"
  "latestFlushLSN (fst (processDMLMessage e tableOID cmd msg b)) = latestFlushLSN b"
  "transactionCommitLSN (fst (processDMLMessage e tableOID cmd msg b)) = transactionCommitLSN b"
  "beginMsg (fst (processDMLMessage e tableOID cmd msg b)) = beginMsg b"
  "effects (fst (processDMLMessage e tableOID cmd msg b)) = effects b"
  "nameChangeHistory (fst (processDMLMessage e tableOID cmd msg b)) = nameChangeHistory b"
  "isChanged (fst (processDMLMessage e tableOID cmd msg b)) = isChanged b"
  "currentLSN (fst (processDMLMessage e tableOID cmd msg b)) = currentLSN b"
  by (simp_all add: processDMLMessage_def seq_simps case_prod_beta)

lemma maybeRegisterNewName_frame [simp]:
  "cfg (fst (maybeRegisterNewName oid name b)) = cfg b"
  "latestFlushLSN (fst (maybeRegisterNewName oid name b)) = latestFlushLSN b"
  "transactionCommitLSN (fst (maybeRegisterNewName oid name b)) = transactionCommitLSN b"
  "typeMsg (fst (maybeRegisterNewName oid name b)) = typeMsg b"
  "beginMsg (fst (maybeRegisterNewName oid name b)) = beginMsg b"
  "effects (fst (maybeRegisterNewName oid name b)) = effects b"
  "txBeginRelMsg (fst (maybeRegisterNewName oid name b)) = txBeginRelMsg b"
  "relationMessages (fst (maybeRegisterNewName oid name b)) = relationMessages b"
  "currentLSN (fst (maybeRegisterNewName oid name b)) = currentLSN b"
  by (simp_all add: maybeRegisterNewName_def store_def Let_def case_prod_beta split: option.splits)

lemma registerNewTable_frame [simp]:
  "cfg (fst (registerNewTable e oid name b)) = cfg b"
  "latestFlushLSN (fst (registerNewTable e oid name b)) = latestFlushLSN b"
  "transactionCommitLSN (fst (registerNewTable e oid name b)) = transactionCommitLSN b"
  "typeMsg (fst (registerNewTable e oid name b)) = typeMsg b"
  "beginMsg (fst (registerNewTable e oid name b)) = beginMsg b"
  "effects (fst (registerNewTable e oid name b)) = effects b"
  "nameChangeHistory (fst (registerNewTable e oid name b)) = nameChangeHistory b"
  "isChanged (fst (registerNewTable e oid name b)) = isChanged b"
  "txBeginRelMsg (fst (registerNewTable e oid name b)) = txBeginRelMsg b"
  "relationMessages (fst (registerNewTable e oid name b)) = relationMessages b"
  "currentLSN (fst (registerNewTable e oid name b)) = currentLSN b"
  by (simp_all add: registerNewTable_def Set_table_def)

lemma processRelationMessage_tail_frame [simp]:
  "cfg (fst (processRelationMessage_tail oid name raw b)) = cfg b"
  "latestFlushLSN (fst (processRelationMessage_tail oid name raw b)) = latestFlushLSN b"
  "transactionCommitLSN (fst (processRelationMessage_tail oid name raw b)) = transactionCommitLSN b"
  "typeMsg (fst (processRelationMessage_tail oid name raw b)) = typeMsg b"
  "beginMsg (fst (processRelationMessage_tail oid name raw b)) = beginMsg b"
  "effects (fst (processRelationMessage_tail oid name raw b)) = effects b"
  "txBeginRelMsg (fst (processRelationMessage_tail oid name raw b)) = txBeginRelMsg b"
  "currentLSN (fst (processRelationMessage_tail oid name raw b)) = currentLSN b"
  by (simp_all add: processRelationMessage_tail_def seq_simps)

lemma processRelationMessage_frame [simp]:
  "cfg (fst (processRelationMessage e oid name raw b)) = cfg b"
  "latestFlushLSN (fst (processRelationMessage e oid name raw b)) = latestFlushLSN b"
  "transactionCommitLSN (fst (processRelationMessage e oid name raw b)) = transactionCommitLSN b"
  "typeMsg (fst (processRelationMessage e oid name raw b)) = typeMsg b"
  "beginMsg (fst (processRelationMessage e oid name raw b)) = beginMsg b"
  "effects (fst (processRelationMessage e oid name raw b)) = effects b"
  "txBeginRelMsg (fst (processRelationMessage e oid name raw b)) = txBeginRelMsg b"
  "currentLSN (fst (processRelationMessage e oid name raw b)) = currentLSN b"
  by (simp_all add: processRelationMessage_def case_prod_beta)

lemma flushOidNameMap_frame [simp]:
  "cfg (fst (flushOidNameMap e b)) = cfg b"
  "latestFlushLSN (fst (flushOidNameMap e b)) = latestFlushLSN b"
  "transactionCommitLSN (fst (flushOidNameMap e b)) = transactionCommitLSN b"
  "typeMsg (fst (flushOidNameMap e b)) = typeMsg b"
  "beginMsg (fst (flushOidNameMap e b)) = beginMsg b"
  "nameChangeHistory (fst (flushOidNameMap e b)) = nameChangeHistory b"
  "backupTables (fst (flushOidNameMap e b)) = backupTables b"
  "txBeginRelMsg (fst (flushOidNameMap e b)) = txBeginRelMsg b"
  "relationMessages (fst (flushOidNameMap e b)) = relationMessages b"
  "currentLSN (fst (flushOidNameMap e b)) = currentLSN b"
  by (simp_all add: flushOidNameMap_def emit_def Let_def)

lemma writeStateTo_frame [simp]:
  "cfg (fst (writeStateTo e dir b)) = cfg b"
  "latestFlushLSN (fst (writeStateTo e dir b)) = latestFlushLSN b"
  "transactionCommitLSN (fst (writeStateTo e dir b)) = transactionCommitLSN b"
  "typeMsg (fst (writeStateTo e dir b)) = typeMsg b"
  "beginMsg (fst (writeStateTo e dir b)) = beginMsg b"
  "nameChangeHistory (fst (writeStateTo e dir b)) = nameChangeHistory b"
  "isChanged (fst (writeStateTo e dir b)) = isChanged b"
  "backupTables (fst (writeStateTo e dir b)) = backupTables b"
  "txBeginRelMsg (fst (writeStateTo e dir b)) = txBeginRelMsg b"
  "relationMessages (fst (writeStateTo e dir b)) = relationMessages b"
  "currentLSN (fst (writeStateTo e dir b)) = currentLSN b"
  by (simp_all add: writeStateTo_def emit_def Let_def)

lemma writeRestartLSN_frame [simp]:
  "cfg (fst (writeRestartLSN e b)) = cfg b"
  "latestFlushLSN (fst (writeRestartLSN e b)) = latestFlushLSN b"
  "transactionCommitLSN (fst (writeRestartLSN e b)) = transactionCommitLSN b"
  "typeMsg (fst (writeRestartLSN e b)) = typeMsg b"
  "beginMsg (fst (writeRestartLSN e b)) = beginMsg b"
  "nameChangeHistory (fst (writeRestartLSN e b)) = nameChangeHistory b"
  "isChanged (fst (writeRestartLSN e b)) = isChanged b"
  "backupTables (fst (writeRestartLSN e b)) = backupTables b"
  "txBeginRelMsg (fst (writeRestartLSN e b)) = txBeginRelMsg b"
  "relationMessages (fst (writeRestartLSN e b)) = relationMessages b"
  "currentLSN (fst (writeRestartLSN e b)) = currentLSN b"
  by (simp_all add: writeRestartLSN_def seq_simps)

lemma sendStatus_frame [simp]:
  "cfg (fst (sendStatus e b)) = cfg b"
  "latestFlushLSN (fst (sendStatus e b)) = latestFlushLSN b"
  "transactionCommitLSN (fst (sendStatus e b)) = transactionCommitLSN b"
  "typeMsg (fst (sendStatus e b)) = typeMsg b"
  "beginMsg (fst (sendStatus e b)) = beginMsg b"
  "nameChangeHistory (fst (sendStatus e b)) = nameChangeHistory b"
  "isChanged (fst (sendStatus e b)) = isChanged b"
  "backupTables (fst (sendStatus e b)) = backupTables b"
  "txBeginRelMsg (fst (sendStatus e b)) = txBeginRelMsg b"
  "relationMessages (fst (sendStatus e b)) = relationMessages b"
  "currentLSN (fst (sendStatus e b)) = currentLSN b"
  by (simp_all add: sendStatus_def emit_def Let_def)

lemma commitLoop_frame [simp]:
  "cfg (fst (commitLoop e raw ks b)) = cfg b"
  "latestFlushLSN (fst (commitLoop e raw ks b)) = latestFlushLSN b"
  "transactionCommitLSN (fst (commitLoop e raw ks b)) = transactionCommitLSN b"
  "typeMsg (fst (commitLoop e raw ks b)) = typeMsg b"
  "beginMsg (fst (commitLoop e raw ks b)) = beginMsg b"
  "effects (fst (commitLoop e raw ks b)) = effects b"
  "nameChangeHistory (fst (commitLoop e raw ks b)) = nameChangeHistory b"
  "isChanged (fst (commitLoop e raw ks b)) = isChanged b"
  "txBeginRelMsg (fst (commitLoop e raw ks b)) = txBeginRelMsg b"
  "relationMessages (fst (commitLoop e raw ks b)) = relationMessages b"
  "currentLSN (fst (commitLoop e raw ks b)) = currentLSN b"
  by (induction ks arbitrary: b; simp add: seq_simps)+

lemma advanceFlushLSN_frame [simp]:
  "cfg (fst (advanceFlushLSN e b)) = cfg b"
  "transactionCommitLSN (fst (advanceFlushLSN e b)) = transactionCommitLSN b"
  "typeMsg (fst (advanceFlushLSN e b)) = typeMsg b"
  "beginMsg (fst (advanceFlushLSN e b)) = beginMsg b"
  "nameChangeHistory (fst (advanceFlushLSN e b)) = nameChangeHistory b"
  "isChanged (fst (advanceFlushLSN e b)) = isChanged b"
  "backupTables (fst (advanceFlushLSN e b)) = backupTables b"
  "txBeginRelMsg (fst (advanceFlushLSN e b)) = txBeginRelMsg b"
  "relationMessages (fst (advanceFlushLSN e b)) = relationMessages b"
  "currentLSN (fst (advanceFlushLSN e b)) = currentLSN b"
  by (simp_all add: advanceFlushLSN_def Let_def)

lemma fst_updateMetricsOnCommit [simp]: "fst (updateMetricsOnCommit b) = b"
  by (simp add: updateMetricsOnCommit_def)

lemma fst_handleCommit:
  "fst (handleCommit e lsn raw b) =
     (let r = commitLoop e raw (participating b) (b\<lparr>currentLSN := lsn\<rparr>)
      in if snd r = None then fst (advanceFlushLSN e (fst (flushOidNameMap e (fst r)))) else fst r)"
  by (simp add: handleCommit_def Let_def seq_simps case_prod_beta split: option.splits)

lemma snd_handleCommit:
  "snd (handleCommit e lsn raw b) =
     (let r = commitLoop e raw (participating b) (b\<lparr>currentLSN := lsn\<rparr>)
      in if snd r = None then
           (let r4 = advanceFlushLSN e (fst (flushOidNameMap e (fst r)))
            in case snd (updateMetricsOnCommit (fst r4)) of Some p \<Rightarrow> Some p | None \<Rightarrow> snd r4)
         else snd r)"
  by (simp add: handleCommit_def Let_def seq_simps case_prod_beta split: option.splits)

lemma handleCommit_frame [simp]:
  "cfg (fst (handleCommit e lsn raw b)) = cfg b"
  "transactionCommitLSN (fst (handleCommit e lsn raw b)) = transactionCommitLSN b"
  "typeMsg (fst (handleCommit e lsn raw b)) = typeMsg b"
  "beginMsg (fst (handleCommit e lsn raw b)) = beginMsg b"
  "nameChangeHistory (fst (handleCommit e lsn raw b)) = nameChangeHistory b"
  "txBeginRelMsg (fst (handleCommit e lsn raw b)) = txBeginRelMsg b"
  "relationMessages (fst (handleCommit e lsn raw b)) = relationMessages b"
  by (simp_all add: fst_handleCommit Let_def)

lemma handler_simps:
  "handler e (Relation oid name raw) w b = processRelationMessage e oid name raw (b\<lparr>currentLSN := w\<rparr>)"
  "handler e (Insert oid raw) w b = processDMLMessage e oid cInsert raw (b\<lparr>currentLSN := w\<rparr>)"
  "handler e (Update oid raw) w b = processDMLMessage e oid cUpdate raw (b\<lparr>currentLSN := w\<rparr>)"
  "handler e (Delete oid raw) w b = processDMLMessage e oid cDelete raw (b\<lparr>currentLSN := w\<rparr>)"
  "handler e (Begin xid finalLSN raw) w b =
     (b\<lparr>currentLSN := w, lastTxId := xid, transactionCommitLSN := finalLSN,
        txBeginRelMsg := Some [], beginMsg := raw\<rparr>, None)"
  "handler e (Commit lsn raw ts) w b = handleCommit e lsn raw (b\<lparr>currentLSN := w\<rparr>)"
  "handler e Origin w b = (b\<lparr>currentLSN := w\<rparr>, None)"
  "handler e Truncate w b = (b\<lparr>currentLSN := w\<rparr>, None)"
  "handler e (Type raw) w b = (b\<lparr>currentLSN := w\<rparr>, None)"
  by (simp_all add: handler_def)

lemma handler_cfg [simp]: "cfg (fst (handler e m w b)) = cfg b"
  by (cases m) (simp_all add: handler_simps)

section \<open>Start-up and the flush LSN\<close>

lemma Set_table_frame [simp]:
  "cfg (Set_table oid t b) = cfg b"
  "latestFlushLSN (Set_table oid t b) = latestFlushLSN b"
  "transactionCommitLSN (Set_table oid t b) = transactionCommitLSN b"
  "typeMsg (Set_table oid t b) = typeMsg b"
  "txBeginRelMsg (Set_table oid t b) = txBeginRelMsg b"
  "nameChangeHistory (Set_table oid t b) = nameChangeHistory b"
  "relationMessages (Set_table oid t b) = relationMessages b"
  "participating (Set_table oid t b) = participating b"
  by (simp_all add: Set_table_def participating_def)

lemma registerTables_frame [simp]:
  "cfg (fst (registerTables d e ts b)) = cfg b"
  "latestFlushLSN (fst (registerTables d e ts b)) = latestFlushLSN b"
  "transactionCommitLSN (fst (registerTables d e ts b)) = transactionCommitLSN b"
  "typeMsg (fst (registerTables d e ts b)) = typeMsg b"
  "txBeginRelMsg (fst (registerTables d e ts b)) = txBeginRelMsg b"
  by (induction ts arbitrary: b; simp add: seq_simps Let_def)+

lemma prepareTablesForPublication_frame [simp]:
  "cfg (fst (prepareTablesForPublication d e b)) = cfg b"
  "latestFlushLSN (fst (prepareTablesForPublication d e b)) = latestFlushLSN b"
  "transactionCommitLSN (fst (prepareTablesForPublication d e b)) = transactionCommitLSN b"
  "typeMsg (fst (prepareTablesForPublication d e b)) = typeMsg b"
  "txBeginRelMsg (fst (prepareTablesForPublication d e b)) = txBeginRelMsg b"
  by (simp_all add: prepareTablesForPublication_def seq_simps)

lemma prepareDB_slot_created:
  assumes "\<not> IsValid (latestFlushLSN b)" "create_slot d = Some p"
  shows "latestFlushLSN (fst (prepareDB_slot d e b)) = p - 1" "snd (prepareDB_slot d e b) = None"
  using assms by (simp_all add: prepareDB_slot_def)

text \<open>
  Claim C4, as amended. When the slot does not exist and is created with consistent point
  \<open>p\<close>, \<open>prepareDB\<close> leaves \<open>latestFlushLSN = p - 1\<close> in unsigned 64-bit arithmetic:
  one less than \<open>p\<close> when \<open>p > 0\<close>, and \<open>2^64 - 1\<close> (the subtraction wraps around) when
  \<open>p = 0\<close>. Nothing that follows in \<open>prepareDB\<close> changes it, whether it fails or not.
\<close>

theorem slot_creation_flush_lsn:
  assumes "connect_ok d" "publication_ok d" "slot_flush_ok d"
    and "\<not> IsValid (slot_flush_lsn d)" "create_slot d = Some p"
  shows "latestFlushLSN (fst (prepareDB d e b)) = p - 1 \<and>
         (0 < p \<longrightarrow> unat (latestFlushLSN (fst (prepareDB d e b))) = unat p - 1) \<and>
         (p = 0 \<longrightarrow> unat (latestFlushLSN (fst (prepareDB d e b))) = 2 ^ 64 - 1)"
proof -
  have "latestFlushLSN (fst (prepareDB d e b)) = p - 1"
    using assms
    by (simp add: prepareDB_def Let_def seq_simps
        prepareDB_slot_created[where b = "b\<lparr>latestFlushLSN := slot_flush_lsn d\<rparr>"])
  moreover have "0 < p \<Longrightarrow> unat (p - 1) = unat p - 1"
    by (simp add: unat_minus_one word_greater_zero_iff)
  moreover have "unat ((0 :: LSN) - 1) = 2 ^ 64 - 1"
    by (simp add: unsigned_minus_1_eq_mask mask_eq_exp_minus_1)
  ultimately show ?thesis by auto
qed

theorem slot_creation_flush_lsn_witness:
  "latestFlushLSN (fst (prepareDB example_startup io_ok (newLogicalBackup example_cfg))) = 0x50"
  using slot_creation_flush_lsn[of example_startup "0x51" io_ok "newLogicalBackup example_cfg"]
  by (simp add: example_startup_def IsValid_def InvalidLSN_def)

text \<open>
  Claim C4 as stated fails at \<open>p = 0\<close>: the subtraction is not saturating, and the flush LSN
  becomes the largest 64-bit value instead of zero.
\<close>

theorem slot_creation_wraps_at_zero:
  "latestFlushLSN
     (fst (prepareDB (example_startup\<lparr>create_slot := Some 0\<rparr>) io_ok (newLogicalBackup example_cfg)))
   = 0xFFFFFFFFFFFFFFFF"
  by (simp add: prepareDB_def Let_def seq_simps prepareDB_slot_def example_startup_def
      IsValid_def InvalidLSN_def newLogicalBackup_def)

section \<open>The flush LSN never decreases\<close>

lemma handleCommit_flush_mono:
  "latestFlushLSN b \<le> latestFlushLSN (fst (handleCommit e lsn raw b))"
  by (auto simp add: fst_handleCommit Let_def advanceFlushLSN_def)

lemma handler_flush_mono:
  "latestFlushLSN b \<le> latestFlushLSN (fst (handler e m walStart b))"
proof (cases m)
  case (Commit lsn raw ts)
  then show ?thesis
    using handleCommit_flush_mono[of "b\<lparr>currentLSN := walStart\<rparr>" e lsn raw]
    by (simp add: handler_simps)
qed (simp_all add: handler_simps)

lemma onWalMessage_flush_mono:
  "latestFlushLSN b \<le> latestFlushLSN (fst (onWalMessage parse e walStart walData b))"
  using handler_flush_mono
  by (simp add: onWalMessage_def case_prod_beta split: option.splits)

lemma onHeartbeat_flush [simp]:
  "latestFlushLSN (fst (onHeartbeat e hb b)) = latestFlushLSN b"
  by (simp add: onHeartbeat_def case_prod_beta split: option.splits)

lemma loopBody_flush_mono:
  "latestFlushLSN b \<le> latestFlushLSN (fst (loopBody parse e ev b))"
proof (cases ev)
  case (Default r)
  show ?thesis
  proof (cases r)
    case (ReplicationMessage wal hb)
    show ?thesis
    proof (cases wal)
      case None
      then show ?thesis
        using Default ReplicationMessage by (simp add: loopBody_def)
    next
      case (Some p)
      then show ?thesis
        using Default ReplicationMessage
          onWalMessage_flush_mono[of b parse e "fst p" "snd p"]
        by (simp add: loopBody_def case_prod_beta split: option.splits)
    qed
  qed (simp_all add: loopBody_def Default)
qed (simp_all add: loopBody_def case_prod_beta split: option.splits)

lemma loop_flush_mono:
  "latestFlushLSN b \<le> latestFlushLSN (fst (loop parse evs b))"
proof (induction evs arbitrary: b)
  case Nil
  show ?case by simp
next
  case (Cons x evs)
  obtain e ev where x: "x = (e, ev)" by (cases x)
  obtain b' oc where r: "loopBody parse e ev b = (b', oc)" by (cases "loopBody parse e ev b")
  have "latestFlushLSN b \<le> latestFlushLSN b'"
    using loopBody_flush_mono[of b parse e ev] r by simp
  moreover have "latestFlushLSN b' \<le> latestFlushLSN (fst (loop parse evs b'))"
    by (rule Cons.IH)
  ultimately show ?case
    using x r by (cases oc) auto
qed

text \<open>
  Claim C3. Once the engine is initialised, \<open>latestFlushLSN\<close> never decreases: not when the
  handler handles a message (whatever the message, and whether or not the handler fails), not
  when a status is sent, not over a turn of the receive loop, and not over any run of it.
\<close>

theorem latest_flush_lsn_monotonic:
  "latestFlushLSN b \<le> latestFlushLSN (fst (handler e m walStart b)) \<and>
   latestFlushLSN (fst (sendStatus e b)) = latestFlushLSN b \<and>
   latestFlushLSN b \<le> latestFlushLSN (fst (loopBody parse e ev b)) \<and>
   latestFlushLSN b \<le> latestFlushLSN (fst (logicalDecoding start_ok parse evs b))"
  using handler_flush_mono loopBody_flush_mono loop_flush_mono
  by (simp add: logicalDecoding_def)

section \<open>Replayed frames\<close>

text \<open>
  Claim C5. A WAL frame whose \<open>WalStart\<close> is valid and not above \<open>latestFlushLSN\<close> is
  dropped: the turn of the receive loop leaves the engine as it was and goes on, whatever
  the payload is (a payload that the decoder rejects would otherwise stop the engine) and
  without looking at the heartbeat part. A frame whose \<open>WalStart\<close> is the invalid LSN is not
  dropped: it is decoded and handed to the handler.
\<close>

theorem replayed_frame_dropped:
  "(IsValid walStart \<and> walStart \<le> latestFlushLSN b \<longrightarrow>
      loopBody parse e (Default (ReplicationMessage (Some (walStart, walData)) hb)) b = (b, Continue)) \<and>
   loopBody parse e (Default (ReplicationMessage (Some (InvalidLSN, walData)) hb)) b =
     (case parse walData of
        None \<Rightarrow> (b, Stop)
      | Some logmsg \<Rightarrow>
          (case handler e logmsg InvalidLSN b of
             (b', Some err) \<Rightarrow> (b', if is_panic err then Panicked else Stop)
           | (b', None) \<Rightarrow> onHeartbeat e hb b'))"
  by (simp add: loopBody_def onWalMessage_def IsValid_def split: option.splits prod.splits)

theorem replayed_frame_dropped_witness:
  "IsValid 0x50 \<and> (0x50 :: LSN) \<le> latestFlushLSN example_engine \<and>
   loopBody (\<lambda>x. None) io_ok (Default (ReplicationMessage (Some (0x50, [])) None)) example_engine =
     (example_engine, Continue) \<and>
   loopBody (\<lambda>x. None) io_ok (Default (ReplicationMessage (Some (InvalidLSN, [])) None)) example_engine =
     (example_engine, Stop)"
proof -
  have l: "latestFlushLSN example_engine = 0x50"
    unfolding example_engine_def by code_simp
  have v: "IsValid 0x50 \<and> (0x50 :: LSN) \<le> latestFlushLSN example_engine"
    by (simp add: l IsValid_def InvalidLSN_def)
  show ?thesis
    using v replayed_frame_dropped[of "0x50" example_engine "\<lambda>x. None" io_ok "[]" None]
    by simp
qed

section \<open>The candidate flush LSN\<close>

lemma fold_flush_Min:
  "fold (\<lambda>table result.
           case GetFlushLSN table of
             (flushLSN, isFlushRequired) \<Rightarrow>
               if isFlushRequired \<and> flushLSN < result then flushLSN else result) ts r =
   Min (insert r {fst (GetFlushLSN t) | t. t \<in> set ts \<and> snd (GetFlushLSN t)})"
proof (induction ts arbitrary: r)
  case Nil
  show ?case by simp
next
  case (Cons t ts)
  let ?S = "{fst (GetFlushLSN u) | u. u \<in> set ts \<and> snd (GetFlushLSN u)}"
  have fin: "finite ?S" by simp
  obtain l req where g: "GetFlushLSN t = (l, req)" by (cases "GetFlushLSN t")
  have S': "{fst (GetFlushLSN u) | u. u \<in> set (t # ts) \<and> snd (GetFlushLSN u)} =
            (if req then insert l ?S else ?S)"
  proof (cases req)
    case True
    have "fst (GetFlushLSN t) = l \<and> snd (GetFlushLSN t)"
      using g True by simp
    then show ?thesis
      using True by (auto simp: g) (metis fst_conv snd_conv g)+
  next
    case False
    then show ?thesis
      using g by auto
  qed
  have Min_l: "Min (insert r (insert l ?S)) = min r (Min (insert l ?S))"
    using fin by (intro Min_insert) auto
  have Min_r: "Min (insert l (insert r ?S)) = min l (Min (insert r ?S))"
    using fin by (intro Min_insert) auto
  have le_l: "Min (insert l ?S) \<le> l" and le_r: "Min (insert r ?S) \<le> r"
    using fin by (auto intro: Min_le)
  show ?case
  proof (cases "req \<and> l < r")
    case True
    have "Min (insert l ?S) \<le> r"
      using le_l True by (meson order_trans less_imp_le)
    then have "min r (Min (insert l ?S)) = Min (insert l ?S)"
      by (rule min_absorb2)
    then have "Min (insert r (insert l ?S)) = Min (insert l ?S)"
      using Min_l by (simp only:)
    then show ?thesis
      using True g S' Cons.IH[of l] by (simp del: Min_insert)
  next
    case False
    have "Min (insert r (insert l ?S)) = Min (insert r ?S)" if req
    proof -
      have "r \<le> l" using False that by simp
      then have "Min (insert r ?S) \<le> l"
        using le_r by (meson order_trans)
      then have "min l (Min (insert r ?S)) = Min (insert r ?S)"
        by (rule min_absorb2)
      then show ?thesis
        using Min_r by (simp only: insert_commute[of r l])
    qed
    then show ?thesis
      using False g S' Cons.IH[of r] by (auto simp del: Min_insert)
  qed
qed

lemma getNextFlushLSN_Min:
  "getNextFlushLSN b = Min (insert (transactionCommitLSN b) (capping b))"
proof -
  have "capping b = {fst (GetFlushLSN t) | t. t \<in> set (map snd (backupTables b)) \<and> snd (GetFlushLSN t)}"
    by (auto simp: capping_def)
  then show ?thesis
    by (simp add: getNextFlushLSN_def Map_tables_def fold_flush_Min)
qed

lemma finite_capping [simp]: "finite (capping b)"
  by (simp add: capping_def)

section \<open>What the engine writes and sends\<close>

lemma stateFile_neq_OidNameMapFile [simp]: "stateFile \<noteq> OidNameMapFile"
  by (simp add: stateFile_def OidNameMapFile_def)

lemma sendStatus_effects:
  "effects (fst (sendStatus e b)) = effects b @ [SendStandbyStatus (latestFlushLSN b)]"
  by (simp add: sendStatus_def emit_def Let_def)

lemma writeStateTo_effects:
  "\<exists>xs. effects (fst (writeStateTo e dir b)) = effects b @ OpenFile dir stateFile # xs \<and>
        list_all (on_file stateFile) xs"
  by (simp add: writeStateTo_def emit_def Let_def)

lemma writeStateTo_effects_ok:
  assumes "\<not> open_err e dir stateFile" "\<not> encode_err e dir stateFile"
  shows "effects (fst (writeStateTo e dir b)) =
           effects b @ [OpenFile dir stateFile, Encode dir stateFile (StateInfo (latestFlushLSN b)),
                        SyncFileAndDirectory dir stateFile]"
    and "snd (writeStateTo e dir b) = None"
  using assms by (simp_all add: writeStateTo_def emit_def Let_def)

lemma writeRestartLSN_effects:
  "\<exists>xs. effects (fst (writeRestartLSN e b)) = effects b @ OpenFile (baseDir b) stateFile # xs \<and>
        list_all (on_file stateFile) xs"
proof (cases "StagingDir (cfg b) = ''''")
  case True
  then show ?thesis
    using writeStateTo_effects[of e "ArchiveDir (cfg b)" b]
    by (simp add: writeRestartLSN_def seq_simps baseDir_def)
next
  case False
  obtain xs where xs: "effects (fst (writeStateTo e (StagingDir (cfg b)) b)) =
      effects b @ OpenFile (StagingDir (cfg b)) stateFile # xs" "list_all (on_file stateFile) xs"
    using writeStateTo_effects[of e "StagingDir (cfg b)" b] by blast
  obtain ys where ys: "effects (fst (writeStateTo e (ArchiveDir (cfg b))
                             (fst (writeStateTo e (StagingDir (cfg b)) b)))) =
      effects (fst (writeStateTo e (StagingDir (cfg b)) b)) @ OpenFile (ArchiveDir (cfg b)) stateFile # ys"
      "list_all (on_file stateFile) ys"
    using writeStateTo_effects[of e "ArchiveDir (cfg b)" "fst (writeStateTo e (StagingDir (cfg b)) b)"]
    by blast
  show ?thesis
    using False xs ys by (auto simp: writeRestartLSN_def seq_simps baseDir_def)
qed

lemma writeRestartLSN_effects_ok:
  assumes "\<And>dir. \<not> open_err e dir stateFile" "\<And>dir. \<not> encode_err e dir stateFile"
  shows "effects (fst (writeRestartLSN e b)) =
           effects b @
           (if StagingDir (cfg b) \<noteq> '''' then
              [OpenFile (StagingDir (cfg b)) stateFile,
               Encode (StagingDir (cfg b)) stateFile (StateInfo (latestFlushLSN b)),
               SyncFileAndDirectory (StagingDir (cfg b)) stateFile]
            else []) @
           [OpenFile (ArchiveDir (cfg b)) stateFile,
            Encode (ArchiveDir (cfg b)) stateFile (StateInfo (latestFlushLSN b)),
            SyncFileAndDirectory (ArchiveDir (cfg b)) stateFile]"
  using assms by (simp add: writeRestartLSN_def seq_simps writeStateTo_effects_ok)

lemma flushOidNameMap_clean:
  "\<not> isChanged b \<Longrightarrow> flushOidNameMap e b = (b, None)"
  by (simp add: flushOidNameMap_def)

lemma flushOidNameMap_effects:
  "effects (fst (flushOidNameMap e b)) =
     effects b @
     (if isChanged b then
        OpenFile (baseDir b) OidNameMapFile #
        (if open_err e (baseDir b) OidNameMapFile then []
         else [Encode (baseDir b) OidNameMapFile (NameChangeHistory (nameChangeHistory b)),
               SyncFileAndDirectory (baseDir b) OidNameMapFile])
      else [])"
  by (simp add: flushOidNameMap_def emit_def Let_def)

lemma flushOidNameMap_isChanged:
  "isChanged (fst (flushOidNameMap e b)) =
     (isChanged b \<and> (open_err e (baseDir b) OidNameMapFile \<or> encode_err e (baseDir b) OidNameMapFile))"
  by (simp add: flushOidNameMap_def emit_def Let_def)

lemma baseDir_cong: "cfg b' = cfg b \<Longrightarrow> baseDir b' = baseDir b"
  by (simp add: baseDir_def)

lemma advanceFlushLSN_effects:
  "effects (fst (advanceFlushLSN e b)) =
     (if latestFlushLSN b < getNextFlushLSN b
      then effects (fst (writeRestartLSN e (b\<lparr>latestFlushLSN := getNextFlushLSN b\<rparr>))) @
           [SendStandbyStatus (getNextFlushLSN b)]
      else effects b)"
  by (simp add: advanceFlushLSN_def Let_def sendStatus_effects)

lemma advanceFlushLSN_latest:
  "latestFlushLSN (fst (advanceFlushLSN e b)) =
     (if latestFlushLSN b < getNextFlushLSN b then getNextFlushLSN b else latestFlushLSN b)"
  by (simp add: advanceFlushLSN_def Let_def)

lemma advanceFlushLSN_other_files:
  "\<exists>xs. effects (fst (advanceFlushLSN e b)) = effects b @ xs \<and>
        list_all (\<lambda>x. \<not> on_file OidNameMapFile x) xs"
proof (cases "latestFlushLSN b < getNextFlushLSN b")
  case True
  obtain xs where xs:
    "effects (fst (writeRestartLSN e (b\<lparr>latestFlushLSN := getNextFlushLSN b\<rparr>))) =
       effects b @ OpenFile (baseDir b) stateFile # xs" "list_all (on_file stateFile) xs"
    using writeRestartLSN_effects[of e "b\<lparr>latestFlushLSN := getNextFlushLSN b\<rparr>"]
    by (auto simp: baseDir_def)
  have "list_all (\<lambda>x. \<not> on_file OidNameMapFile x) xs"
    using xs(2) by (induction xs) (auto elim: on_file.elims)
  then show ?thesis
    using True xs(1) by (simp add: advanceFlushLSN_effects)
next
  case False
  then show ?thesis by (simp add: advanceFlushLSN_effects)
qed

section \<open>The commit branch of the handler\<close>

lemma handler_Commit_fst:
  "fst (handler e (Commit lsn raw ts) walStart b) =
     (let r = commitLoop e raw (participating b) (b\<lparr>currentLSN := lsn\<rparr>)
      in if snd r = None then fst (advanceFlushLSN e (fst (flushOidNameMap e (fst r)))) else fst r)"
  by (simp add: handler_simps fst_handleCommit)

lemma handler_Commit_snd_err:
  "snd (commitLoop e raw (participating b) (b\<lparr>currentLSN := lsn\<rparr>)) \<noteq> None \<Longrightarrow>
   snd (handler e (Commit lsn raw ts) walStart b) =
     snd (commitLoop e raw (participating b) (b\<lparr>currentLSN := lsn\<rparr>))"
  by (auto simp add: handler_simps snd_handleCommit Let_def)

text \<open>
  Claim C2. On a Commit message the handler first writes the commit record to the
  participating writers; when one of these writes fails it returns that error at once, with
  \<open>latestFlushLSN\<close> unchanged, nothing persisted and nothing sent. Otherwise it flushes the
  OID-to-name file if needed and computes the candidate: the minimum of the commit LSN of the
  transaction and of the flush LSNs of the writers in the registry that report
  \<open>isFlushRequired\<close> (a writer that reports \<open>false\<close> does not count). \<open>latestFlushLSN\<close>
  becomes the candidate if and only if the candidate is strictly greater, and exactly in that
  case the state file is written (first in the staging directory when there is one; with no
  failing file operation, the document \<open>StateInfo candidate\<close> goes to the staging and the
  archive directory) and a standby status carrying the candidate is sent last.
\<close>

theorem commit_flush_candidate:
  "let r = commitLoop e raw (participating b) (b\<lparr>currentLSN := lsn\<rparr>);
       b3 = fst (flushOidNameMap e (fst r));
       candidate = getNextFlushLSN b3;
       b' = fst (handler e (Commit lsn raw ts) walStart b)
   in candidate = Min (insert (transactionCommitLSN b) (capping b3)) \<and>
      (snd r = None \<longrightarrow>
         latestFlushLSN b' =
           (if latestFlushLSN b < candidate then candidate else latestFlushLSN b) \<and>
         (latestFlushLSN b < candidate \<longrightarrow>
            (\<exists>xs. effects b' =
                    effects b3 @ OpenFile (baseDir b) stateFile # xs @ [SendStandbyStatus candidate] \<and>
                  list_all (on_file stateFile) xs) \<and>
            ((\<forall>dir. \<not> open_err e dir stateFile \<and> \<not> encode_err e dir stateFile) \<longrightarrow>
               effects b' =
                 effects b3 @
                 (if StagingDir (cfg b) \<noteq> '''' then
                    [OpenFile (StagingDir (cfg b)) stateFile,
                     Encode (StagingDir (cfg b)) stateFile (StateInfo candidate),
                     SyncFileAndDirectory (StagingDir (cfg b)) stateFile]
                  else []) @
                 [OpenFile (ArchiveDir (cfg b)) stateFile,
                  Encode (ArchiveDir (cfg b)) stateFile (StateInfo candidate),
                  SyncFileAndDirectory (ArchiveDir (cfg b)) stateFile,
                  SendStandbyStatus candidate])) \<and>
         (\<not> latestFlushLSN b < candidate \<longrightarrow> effects b' = effects b3)) \<and>
      (snd r \<noteq> None \<longrightarrow>
         b' = fst r \<and> snd (handler e (Commit lsn raw ts) walStart b) = snd r \<and>
         latestFlushLSN b' = latestFlushLSN b \<and> effects b' = effects b)"
proof -
  define r where "r = commitLoop e raw (participating b) (b\<lparr>currentLSN := lsn\<rparr>)"
  define b3 where "b3 = fst (flushOidNameMap e (fst r))"
  define candidate where "candidate = getNextFlushLSN b3"
  define b' where "b' = fst (handler e (Commit lsn raw ts) walStart b)"
  have b3_frame: "transactionCommitLSN b3 = transactionCommitLSN b"
    "latestFlushLSN b3 = latestFlushLSN b" "cfg b3 = cfg b"
    by (simp_all add: b3_def r_def)
  have cand: "candidate = Min (insert (transactionCommitLSN b) (capping b3))"
    by (simp add: candidate_def getNextFlushLSN_Min b3_frame)
  have ok: "b' = fst (advanceFlushLSN e b3)" if "snd r = None"
    using that by (simp add: b'_def handler_Commit_fst r_def b3_def Let_def)
  have err: "b' = fst r" "snd (handler e (Commit lsn raw ts) walStart b) = snd r"
    if "snd r \<noteq> None"
    using that handler_Commit_snd_err[of e raw b lsn ts walStart]
    by (auto simp add: b'_def handler_Commit_fst r_def Let_def)
  have latest: "latestFlushLSN b' =
      (if latestFlushLSN b < candidate then candidate else latestFlushLSN b)" if "snd r = None"
    using ok[OF that] by (simp add: advanceFlushLSN_latest candidate_def b3_frame)
  have eff_no: "effects b' = effects b3" if "snd r = None" "\<not> latestFlushLSN b < candidate"
    using ok[OF that(1)] that(2) by (simp add: advanceFlushLSN_effects candidate_def b3_frame)
  have eff_adv: "effects b' =
      effects (fst (writeRestartLSN e (b3\<lparr>latestFlushLSN := candidate\<rparr>))) @
      [SendStandbyStatus candidate]" if "snd r = None" "latestFlushLSN b < candidate"
    using ok[OF that(1)] that(2) by (simp add: advanceFlushLSN_effects candidate_def b3_frame)
  have eff_any: "\<exists>xs. effects b' =
        effects b3 @ OpenFile (baseDir b) stateFile # xs @ [SendStandbyStatus candidate] \<and>
        list_all (on_file stateFile) xs" if "snd r = None" "latestFlushLSN b < candidate"
  proof -
    obtain xs where "effects (fst (writeRestartLSN e (b3\<lparr>latestFlushLSN := candidate\<rparr>))) =
        effects b3 @ OpenFile (baseDir b) stateFile # xs" "list_all (on_file stateFile) xs"
      using writeRestartLSN_effects[of e "b3\<lparr>latestFlushLSN := candidate\<rparr>"]
      by (auto simp: baseDir_def b3_frame)
    then show ?thesis
      using eff_adv[OF that] by simp
  qed
  have eff_ok: "effects b' =
      effects b3 @
      (if StagingDir (cfg b) \<noteq> '''' then
         [OpenFile (StagingDir (cfg b)) stateFile,
          Encode (StagingDir (cfg b)) stateFile (StateInfo candidate),
          SyncFileAndDirectory (StagingDir (cfg b)) stateFile]
       else []) @
      [OpenFile (ArchiveDir (cfg b)) stateFile,
       Encode (ArchiveDir (cfg b)) stateFile (StateInfo candidate),
       SyncFileAndDirectory (ArchiveDir (cfg b)) stateFile,
       SendStandbyStatus candidate]"
    if "snd r = None" "latestFlushLSN b < candidate"
      "\<forall>dir. \<not> open_err e dir stateFile \<and> \<not> encode_err e dir stateFile"
    using eff_adv[OF that(1,2)] that(3)
      writeRestartLSN_effects_ok[of e "b3\<lparr>latestFlushLSN := candidate\<rparr>"]
    by (simp add: b3_frame)
  have err_frame: "latestFlushLSN (fst r) = latestFlushLSN b" "effects (fst r) = effects b"
    by (simp_all add: r_def)
  show ?thesis
    unfolding Let_def r_def[symmetric] b3_def[symmetric] candidate_def[symmetric] b'_def[symmetric]
    using cand latest eff_no eff_any eff_ok err err_frame by auto
qed

theorem commit_flush_candidate_witness:
  "snd (commitLoop io_ok [6] (participating example_begun) (example_begun\<lparr>currentLSN := 0x200\<rparr>)) = None \<and>
   latestFlushLSN example_begun < 0x200 \<and>
   latestFlushLSN (fst (handler io_ok (Commit 0x200 [6] 0) 0x208 example_begun)) = 0x200"
proof -
  have a: "snd (commitLoop io_ok [6] (participating example_begun)
                  (example_begun\<lparr>currentLSN := 0x200\<rparr>)) = None"
    by code_simp
  have c: "getNextFlushLSN
             (fst (flushOidNameMap io_ok
                     (fst (commitLoop io_ok [6] (participating example_begun)
                             (example_begun\<lparr>currentLSN := 0x200\<rparr>))))) = 0x200"
    by code_simp
  have l: "latestFlushLSN example_begun = 0x50"
    by code_simp
  show ?thesis
    using commit_flush_candidate[of io_ok "[6]" example_begun "0x200" 0 "0x208"] a c l
    by (simp add: Let_def)
qed

section \<open>Transactions without DML\<close>

lemma capping_cong: "backupTables b' = backupTables b \<Longrightarrow> capping b' = capping b"
  by (simp add: capping_def)

text \<open>
  Claim C6, as amended. When the participating set is empty at Commit, the handler sets
  \<open>latestFlushLSN\<close> to the larger of its current value and the candidate, the minimum of
  the commit LSN of the transaction and the flush LSNs of all writers in the registry that
  still need a flush. So it advances to the commit LSN of the transaction provided no writer
  with unflushed data (left by an earlier transaction) reports a smaller flush LSN, and the
  commit LSN is above the current value.
\<close>

theorem empty_transaction_commit:
  assumes "participating b = []"
  shows "latestFlushLSN (fst (handler e (Commit lsn raw ts) walStart b)) =
           max (latestFlushLSN b) (Min (insert (transactionCommitLSN b) (capping b))) \<and>
         ((\<forall>l\<in>capping b. transactionCommitLSN b \<le> l) \<longrightarrow>
            latestFlushLSN (fst (handler e (Commit lsn raw ts) walStart b)) =
              max (latestFlushLSN b) (transactionCommitLSN b))"
proof -
  define b3 where "b3 = fst (flushOidNameMap e (b\<lparr>currentLSN := lsn\<rparr>))"
  define c where "c = Min (insert (transactionCommitLSN b) (capping b))"
  have "fst (handler e (Commit lsn raw ts) walStart b) = fst (advanceFlushLSN e b3)"
    using assms by (simp add: handler_Commit_fst b3_def)
  moreover have "capping b3 = capping b"
    by (rule capping_cong) (simp add: b3_def)
  then have "getNextFlushLSN b3 = c"
    by (simp add: getNextFlushLSN_Min c_def b3_def del: Min_insert)
  moreover have "latestFlushLSN b3 = latestFlushLSN b"
    by (simp add: b3_def)
  ultimately have 1: "latestFlushLSN (fst (handler e (Commit lsn raw ts) walStart b)) =
      max (latestFlushLSN b) c"
    by (auto simp add: advanceFlushLSN_latest max_def)
  have "c = transactionCommitLSN b"
    if "\<forall>l\<in>capping b. transactionCommitLSN b \<le> l"
    unfolding c_def using that by (intro Min_insert2) auto
  with 1 show ?thesis
    unfolding c_def[symmetric] by simp
qed

theorem empty_transaction_commit_witness:
  "participating example_begun = [] \<and>
   latestFlushLSN (fst (handler io_ok (Commit 0x200 [6] 0) 0x208 example_begun)) = 0x200"
proof -
  have p: "participating example_begun = []"
    by code_simp
  have t: "backupTables example_begun =
             [(1, tablebackup_New 100 (NamespacedName ''public'' ''t'') 1)]"
    by code_simp
  have c: "capping example_begun = {}"
    by (simp add: capping_def t tablebackup_New_def GetFlushLSN_def)
  have l: "latestFlushLSN example_begun = 0x50" "transactionCommitLSN example_begun = 0x200"
    by code_simp+
  show ?thesis
    using empty_transaction_commit[OF p, of io_ok "0x200" "[6]" 0 "0x208"] p
    by (simp add: c l)
qed

text \<open>
  Claim C6 as stated fails: after a transaction that wrote four records to table 1, whose
  segment is still open, a transaction with no DML commits at \<open>0x200\<close>; the writer of table 1
  reports \<open>isFlushRequired\<close> with flush LSN 0 and caps the candidate, so \<open>latestFlushLSN\<close>
  stays at \<open>0x50\<close>.
\<close>

theorem empty_transaction_capped:
  "snd (handleAll (example_tx @ example_empty_tx) example_engine) = None \<and>
   participating (fst (handleAll (example_tx @ example_empty_tx) example_engine)) = [] \<and>
   transactionCommitLSN (fst (handleAll (example_tx @ example_empty_tx) example_engine)) = 0x200 \<and>
   latestFlushLSN (fst (handleAll (example_tx @ example_empty_tx) example_engine)) = 0x50"
  by (intro conjI; code_simp)

section \<open>Flushing the OID-to-name history\<close>

text \<open>
  Claim C7, as amended. \<open>flushOidNameMap\<close> does nothing and returns no error when the history
  is not dirty. When it is dirty, the file \<open>oid2name.yaml\<close> is opened (created or truncated)
  in \<open>baseDir\<close>, which is the staging directory when one is configured and the archive
  directory otherwise; unless opening fails, the history is encoded into that file in place
  and the file and its directory are synced. The dirty bit is cleared exactly when the file
  was opened and encoded without error. In the commit branch this happens right after the
  commit records are written, and nothing else the branch does touches \<open>oid2name.yaml\<close>.
\<close>

theorem oid_name_map_flush:
  "(\<not> isChanged b \<longrightarrow> flushOidNameMap e b = (b, None)) \<and>
   effects (fst (flushOidNameMap e b)) =
     effects b @
     (if isChanged b then
        OpenFile (baseDir b) OidNameMapFile #
        (if open_err e (baseDir b) OidNameMapFile then []
         else [Encode (baseDir b) OidNameMapFile (NameChangeHistory (nameChangeHistory b)),
               SyncFileAndDirectory (baseDir b) OidNameMapFile])
      else []) \<and>
   isChanged (fst (flushOidNameMap e b)) =
     (isChanged b \<and> (open_err e (baseDir b) OidNameMapFile \<or> encode_err e (baseDir b) OidNameMapFile)) \<and>
   baseDir b = (if StagingDir (cfg b) \<noteq> '''' then StagingDir (cfg b) else ArchiveDir (cfg b)) \<and>
   (snd (commitLoop e raw (participating b) (b\<lparr>currentLSN := lsn\<rparr>)) = None \<longrightarrow>
      (\<exists>rest. effects (fst (handler e (Commit lsn raw ts) walStart b)) =
                effects b @
                (if isChanged b then
                   OpenFile (baseDir b) OidNameMapFile #
                   (if open_err e (baseDir b) OidNameMapFile then []
                    else [Encode (baseDir b) OidNameMapFile (NameChangeHistory (nameChangeHistory b)),
                          SyncFileAndDirectory (baseDir b) OidNameMapFile])
                 else []) @ rest \<and>
              list_all (\<lambda>x. \<not> on_file OidNameMapFile x) rest))"
proof -
  define r where "r = commitLoop e raw (participating b) (b\<lparr>currentLSN := lsn\<rparr>)"
  define written where "written =
     (if isChanged b then
        OpenFile (baseDir b) OidNameMapFile #
        (if open_err e (baseDir b) OidNameMapFile then []
         else [Encode (baseDir b) OidNameMapFile (NameChangeHistory (nameChangeHistory b)),
               SyncFileAndDirectory (baseDir b) OidNameMapFile])
      else [])"
  have 1: "\<not> isChanged b \<longrightarrow> flushOidNameMap e b = (b, None)"
    by (simp add: flushOidNameMap_clean)
  have 2: "effects (fst (flushOidNameMap e b)) = effects b @ written"
    by (simp add: flushOidNameMap_effects written_def)
  have 3: "isChanged (fst (flushOidNameMap e b)) =
     (isChanged b \<and> (open_err e (baseDir b) OidNameMapFile \<or> encode_err e (baseDir b) OidNameMapFile))"
    by (rule flushOidNameMap_isChanged)
  have 4: "baseDir b = (if StagingDir (cfg b) \<noteq> '''' then StagingDir (cfg b) else ArchiveDir (cfg b))"
    by (simp add: baseDir_def)
  have frame: "effects (fst r) = effects b" "isChanged (fst r) = isChanged b"
    "nameChangeHistory (fst r) = nameChangeHistory b" "baseDir (fst r) = baseDir b"
    by (simp_all add: baseDir_def r_def)
  have flushed: "effects (fst (flushOidNameMap e (fst r))) = effects b @ written"
    by (simp add: flushOidNameMap_effects frame written_def)
  have 5: "\<exists>rest. effects (fst (handler e (Commit lsn raw ts) walStart b)) =
                effects b @ written @ rest \<and>
              list_all (\<lambda>x. \<not> on_file OidNameMapFile x) rest" if "snd r = None"
  proof -
    obtain rest where "effects (fst (advanceFlushLSN e (fst (flushOidNameMap e (fst r))))) =
        effects (fst (flushOidNameMap e (fst r))) @ rest"
        "list_all (\<lambda>x. \<not> on_file OidNameMapFile x) rest"
      using advanceFlushLSN_other_files[of e "fst (flushOidNameMap e (fst r))"] by blast
    moreover have "fst (handler e (Commit lsn raw ts) walStart b) =
        fst (advanceFlushLSN e (fst (flushOidNameMap e (fst r))))"
      using that by (simp add: handler_Commit_fst r_def)
    ultimately show ?thesis
      using flushed by auto
  qed
  show ?thesis
    unfolding written_def[symmetric] r_def[symmetric]
    using 1 2 3 4 5 by blast
qed

theorem oid_name_map_flush_witness:
  "isChanged example_renamed \<and>
   snd (commitLoop io_ok [10] (participating example_renamed) (example_renamed\<lparr>currentLSN := 0x300\<rparr>)) = None \<and>
   effects (fst (flushOidNameMap io_ok example_renamed)) =
     effects example_renamed @
     [OpenFile ''/staging'' ''oid2name.yaml'',
      Encode ''/staging'' ''oid2name.yaml'' (NameChangeHistory (nameChangeHistory example_renamed)),
      SyncFileAndDirectory ''/staging'' ''oid2name.yaml'']"
proof -
  have c: "isChanged example_renamed" "baseDir example_renamed = ''/staging''"
    "snd (commitLoop io_ok [10] (participating example_renamed)
            (example_renamed\<lparr>currentLSN := 0x300\<rparr>)) = None"
    by code_simp+
  show ?thesis
    using oid_name_map_flush[of example_renamed io_ok "[10]" "0x300" 0 "0x308"] c
    by (simp add: io_ok_def OidNameMapFile_def)
qed

text \<open>
  Claim C7 as stated fails: with a staging directory configured, the commit of a transaction
  that renamed a table writes \<open>oid2name.yaml\<close> in the staging directory, by opening and
  truncating the file itself; nothing is written to the archive directory but the state file,
  and no temporary file is written or renamed.
\<close>

theorem oid_name_map_written_in_staging:
  "isChanged example_renamed \<and>
   ArchiveDir (cfg example_renamed) = ''/archive'' \<and>
   drop (length (effects example_renamed))
     (effects (fst (handler io_ok example_commit 0x308 example_renamed))) =
     [OpenFile ''/staging'' ''oid2name.yaml'',
      Encode ''/staging'' ''oid2name.yaml''
        (NameChangeHistory
           [(1, [\<lparr>Name = NamespacedName ''public'' ''t'', Lsn = 0\<rparr>,
                 \<lparr>Name = NamespacedName ''public'' ''u'', Lsn = 0x300\<rparr>])]),
      SyncFileAndDirectory ''/staging'' ''oid2name.yaml'',
      OpenFile ''/staging'' ''state.yaml'',
      Encode ''/staging'' ''state.yaml'' (StateInfo 0x300),
      SyncFileAndDirectory ''/staging'' ''state.yaml'',
      OpenFile ''/archive'' ''state.yaml'',
      Encode ''/archive'' ''state.yaml'' (StateInfo 0x300),
      SyncFileAndDirectory ''/archive'' ''state.yaml'',
      SendStandbyStatus 0x300]"
  by (intro conjI; code_simp)

section \<open>The registry and the streams\<close>

lemma writer_record_simps [simp]:
  "writer (b\<lparr>currentLSN := l\<rparr>) = writer b"
  "writer (b\<lparr>relationMessages := rm\<rparr>) = writer b"
  "writer (b\<lparr>txBeginRelMsg := ks\<rparr>) = writer b"
  "writer (b\<lparr>typeMsg := tm\<rparr>) = writer b"
  "writer (b\<lparr>bytesWritten := n\<rparr>) = writer b"
  "writer (b\<lparr>msgCnt := c\<rparr>) = writer b"
  "writer (b\<lparr>isChanged := ch\<rparr>) = writer b"
  "writer (b\<lparr>nameChangeHistory := h\<rparr>) = writer b"
  "writer (b\<lparr>effects := es\<rparr>) = writer b"
  "writer (b\<lparr>latestFlushLSN := l\<rparr>) = writer b"
  by (rule ext, simp add: writer_def)+

lemma writer_cong: "backupTables b' = backupTables b \<Longrightarrow> writer b' = writer b"
  unfolding writer_def by (rule ext) (simp only:)

lemma stream_cong:
  assumes "backupTables b' = backupTables b"
  shows "stream b' = stream b"
proof (rule ext)
  fix oid
  show "stream b' oid = stream b oid"
    using writer_cong[OF assms] by (simp add: stream_def)
qed

lemma registry_ok_cong: "backupTables b' = backupTables b \<Longrightarrow> registry_ok b' = registry_ok b"
  unfolding registry_ok_def by (simp only:)

lemma writer_store [simp]: "writer (store k w b) = (writer b)(k \<mapsto> w)"
  by (rule ext) (simp add: writer_def store_def update_conv')

lemma writer_Set_table [simp]: "writer (Set_table k w b) = (writer b)(k \<mapsto> w)"
  by (rule ext) (simp add: writer_def Set_table_def update_conv')

lemma list_all_update:
  "list_all P al \<Longrightarrow> P (k, v) \<Longrightarrow> list_all P (AList.update k v al)"
  by (induction al) auto

lemma registry_ok_store: "registry_ok b \<Longrightarrow> ID w = k \<Longrightarrow> registry_ok (store k w b)"
  by (simp add: registry_ok_def store_def list_all_update)

lemma registry_ok_Set_table: "registry_ok b \<Longrightarrow> ID w = k \<Longrightarrow> registry_ok (Set_table k w b)"
  by (simp add: registry_ok_def Set_table_def list_all_update)

lemma registry_ok_writer: "registry_ok b \<Longrightarrow> writer b k = Some w \<Longrightarrow> ID w = k"
  by (auto simp: registry_ok_def writer_def list_all_iff dest: map_of_SomeD)

lemma deref_Some: "deref (Some k) b = map_option (Pair k) (writer b k)"
  by (simp add: deref_def writer_def split: option.splits)

lemma GetIfExists_writer: "GetIfExists oid b = (if writer b oid = None then None else Some oid)"
  by (simp add: GetIfExists_def writer_def split: option.splits)

lemma Get_writer: "Get oid b = (if writer b oid = None then (None, False) else (Some oid, True))"
  by (simp add: Get_def writer_def split: option.splits)

lemma deref_None [simp]: "deref None b = None"
  by (simp add: deref_def)

lemma WriteDelta_simps [simp]:
  "ID (fst (WriteDelta f w msg c l)) = ID w"
  "records (fst (WriteDelta f w msg c l)) = (if f then records w else records w @ [(l, msg)])"
  "(snd (WriteDelta f w msg c l) = Inl err) = (f \<and> err = ErrWriteDelta)"
  by (auto simp add: WriteDelta_def Let_def closeSegment_def)

lemma WriteCommandDataForTable_nil [simp]:
  "WriteCommandDataForTable e None msg cmd b = (b, Some PanicNilPointer)"
  by (simp add: WriteCommandDataForTable_def)

lemma WriteCommandDataForTable_snd:
  "snd (WriteCommandDataForTable e (Some k) msg cmd b) =
     (if writer b k = None then Some PanicNilPointer
      else if write_delta_err e cmd k then Some ErrWriteDelta else None)"
  by (auto simp: WriteCommandDataForTable_def deref_Some WriteDelta_def Let_def split: option.splits)

lemma WriteCommandDataForTable_writer:
  "writer (fst (WriteCommandDataForTable e (Some k) msg cmd b)) =
     (case writer b k of
        None \<Rightarrow> writer b
      | Some w \<Rightarrow>
          (writer b)(k \<mapsto> fst (WriteDelta (write_delta_err e cmd k) w msg
                                   (transactionCommitLSN b) (currentLSN b))))"
  by (auto simp: WriteCommandDataForTable_def deref_Some case_prod_beta
      split: option.splits sum.splits)

lemma WriteCommandDataForTable_tracked [simp]:
  "(writer (fst (WriteCommandDataForTable e t msg cmd b)) k' = None) = (writer b k' = None)"
  by (cases t) (auto simp: WriteCommandDataForTable_writer split: option.splits)

lemma WriteCommandDataForTable_stream:
  "stream (fst (WriteCommandDataForTable e (Some k) msg cmd b)) =
     (if snd (WriteCommandDataForTable e (Some k) msg cmd b) = None
      then (stream b)(k := stream b k @ [(currentLSN b, msg)]) else stream b)"
  by (rule ext) (auto simp: stream_def WriteCommandDataForTable_writer WriteCommandDataForTable_snd
      split: option.splits)

lemma WriteCommandDataForTable_registry_ok:
  assumes ok: "registry_ok b"
  shows "registry_ok (fst (WriteCommandDataForTable e t msg cmd b))"
proof (cases "deref t b")
  case None
  then show ?thesis
    using ok by (simp add: WriteCommandDataForTable_def)
next
  case (Some p)
  obtain k w where p: "p = (k, w)" by (cases p)
  have t: "t = Some k" and w: "writer b k = Some w"
    using Some p by (auto simp: deref_def writer_def split: option.splits)
  let ?w' = "fst (WriteDelta (write_delta_err e cmd k) w msg (transactionCommitLSN b) (currentLSN b))"
  have "ID ?w' = k"
    using registry_ok_writer[OF ok w] by simp
  with ok have "registry_ok (store k ?w' b)"
    by (rule registry_ok_store)
  moreover have "backupTables (fst (WriteCommandDataForTable e t msg cmd b)) =
                 backupTables (store k ?w' b)"
    using Some p by (simp add: WriteCommandDataForTable_def case_prod_beta store_def
        split: sum.splits)
  ultimately show ?thesis
    by (simp only: registry_ok_def)
qed

lemma participating_frame [simp]:
  "participating (fst (WriteCommandDataForTable e t msg cmd b)) = participating b"
  "participating (fst (processDMLMessage_type e bt b)) = participating b"
  "participating (fst (processDMLMessage_relation e tableOID bt b)) = participating b"
  "participating (fst (processRelationMessage e oid name raw b)) = participating b"
  "participating (fst (commitLoop e raw ks b)) = participating b"
  "participating (fst (flushOidNameMap e b)) = participating b"
  "participating (fst (advanceFlushLSN e b)) = participating b"
  "participating (fst (handleCommit e lsn raw b)) = participating b"
  by (simp_all add: participating_def)

section \<open>What a DML message writes\<close>

lemma wrap_simps [simp]:
  "wrap x ErrWriteDelta = x"
  "wrap x PanicNilPointer = PanicNilPointer"
  "wrap x PanicNilMap = PanicNilMap"
  by (simp_all add: wrap_def is_panic_def)

lemma snd_wrapErr: "snd (wrapErr x r) = map_option (wrap x) (snd r)"
  by (cases r) (auto simp: wrapErr_def split: option.splits)

lemma begin_snd:
  assumes "writer b k \<noteq> None"
  shows "snd (processDMLMessage_begin e k (Some k) b) =
           (if k \<in> set (participating b) then None
            else if write_delta_err e cBegin k then Some ErrWriteDelta
            else if txBeginRelMsg b = None then Some PanicNilMap else None)"
  using assms
  by (auto simp: processDMLMessage_begin_def seq_simps WriteCommandDataForTable_snd deref_Some
      WriteCommandDataForTable_writer split: option.splits)

lemma begin_stream:
  "stream (fst (processDMLMessage_begin e k (Some k) b)) =
     (if k \<notin> set (participating b) \<and> writer b k \<noteq> None \<and> \<not> write_delta_err e cBegin k
      then (stream b)(k := stream b k @ [(currentLSN b, beginMsg b)]) else stream b)"
proof -
  have "backupTables (fst (processDMLMessage_begin e k (Some k) b)) =
        (if k \<in> set (participating b) then backupTables b
         else backupTables (fst (WriteCommandDataForTable e (Some k) (beginMsg b) cBegin b)))"
    by (simp add: processDMLMessage_begin_def seq_simps case_prod_beta split: option.splits)
  then have "stream (fst (processDMLMessage_begin e k (Some k) b)) =
        (if k \<in> set (participating b) then stream b
         else stream (fst (WriteCommandDataForTable e (Some k) (beginMsg b) cBegin b)))"
    by (auto intro: stream_cong)
  then show ?thesis
    by (simp add: WriteCommandDataForTable_stream WriteCommandDataForTable_snd)
qed

lemma begin_tracked [simp]:
  "(writer (fst (processDMLMessage_begin e k bt b)) k' = None) = (writer b k' = None)"
proof -
  have "backupTables (fst (processDMLMessage_begin e k bt b)) =
        (if k \<in> set (participating b) then backupTables b
         else backupTables (fst (WriteCommandDataForTable e bt (beginMsg b) cBegin b)))"
    by (simp add: processDMLMessage_begin_def seq_simps case_prod_beta split: option.splits)
  then have "writer (fst (processDMLMessage_begin e k bt b)) =
        (if k \<in> set (participating b) then writer b
         else writer (fst (WriteCommandDataForTable e bt (beginMsg b) cBegin b)))"
    by (auto intro: writer_cong)
  then show ?thesis by simp
qed

lemma begin_registry_ok:
  assumes "registry_ok b"
  shows "registry_ok (fst (processDMLMessage_begin e k bt b))"
proof -
  have "backupTables (fst (processDMLMessage_begin e k bt b)) =
        (if k \<in> set (participating b) then backupTables b
         else backupTables (fst (WriteCommandDataForTable e bt (beginMsg b) cBegin b)))"
    by (simp add: processDMLMessage_begin_def seq_simps case_prod_beta split: option.splits)
  then show ?thesis
    using assms WriteCommandDataForTable_registry_ok[OF assms, of e bt "beginMsg b" cBegin]
    by (auto simp only: registry_ok_def split: if_splits)
qed

lemma begin_participating:
  assumes "registry_ok b" "writer b k \<noteq> None"
  shows "participating (fst (processDMLMessage_begin e k (Some k) b)) =
           (if k \<notin> set (participating b) \<and> \<not> write_delta_err e cBegin k \<and> txBeginRelMsg b \<noteq> None
            then participating b @ [k] else participating b)"
proof -
  obtain w where w: "writer b k = Some w" using assms(2) by auto
  let ?w' = "fst (WriteDelta (write_delta_err e cBegin k) w (beginMsg b)
                    (transactionCommitLSN b) (currentLSN b))"
  have id: "ID ?w' = k"
    using registry_ok_writer[OF assms(1) w] by simp
  show ?thesis
    using w id
    by (auto simp: processDMLMessage_begin_def seq_simps WriteCommandDataForTable_snd deref_Some
        WriteCommandDataForTable_writer participating_def split: option.splits)
qed

lemma type_snd:
  assumes "writer b k \<noteq> None"
  shows "snd (processDMLMessage_type e (Some k) b) =
           (case typeMsg b of
              None \<Rightarrow> None
            | Some tm \<Rightarrow> if write_delta_err e cType k then Some ErrCouldNotWriteTypeMessage else None)"
  using assms
  by (auto simp: processDMLMessage_type_def seq_simps snd_wrapErr WriteCommandDataForTable_snd
      split: option.splits)

lemma type_backupTables:
  "backupTables (fst (processDMLMessage_type e bt b)) =
     (case typeMsg b of
        None \<Rightarrow> backupTables b
      | Some tm \<Rightarrow> backupTables (fst (WriteCommandDataForTable e bt tm cType b)))"
  by (simp add: processDMLMessage_type_def seq_simps split: option.splits)

lemma type_stream:
  "stream (fst (processDMLMessage_type e (Some k) b)) =
     (case typeMsg b of
        None \<Rightarrow> stream b
      | Some tm \<Rightarrow>
          if writer b k \<noteq> None \<and> \<not> write_delta_err e cType k
          then (stream b)(k := stream b k @ [(currentLSN b, tm)]) else stream b)"
proof (cases "typeMsg b")
  case None
  then show ?thesis
    using stream_cong[OF type_backupTables[of e "Some k" b, unfolded None option.case]]
    by simp
next
  case (Some tm)
  then show ?thesis
    using stream_cong[OF type_backupTables[of e "Some k" b, unfolded Some option.case]]
    by (simp add: WriteCommandDataForTable_stream WriteCommandDataForTable_snd)
qed

lemma type_tracked [simp]:
  "(writer (fst (processDMLMessage_type e bt b)) k' = None) = (writer b k' = None)"
proof (cases "typeMsg b")
  case None
  then show ?thesis
    using writer_cong[OF type_backupTables[of e bt b, unfolded None option.case]] by simp
next
  case (Some tm)
  then show ?thesis
    using writer_cong[OF type_backupTables[of e bt b, unfolded Some option.case]] by simp
qed

lemma type_registry_ok:
  assumes "registry_ok b"
  shows "registry_ok (fst (processDMLMessage_type e bt b))"
proof (cases "typeMsg b")
  case None
  then show ?thesis
    using assms type_backupTables[of e bt b] by (simp add: registry_ok_def)
next
  case (Some tm)
  then show ?thesis
    using WriteCommandDataForTable_registry_ok[OF assms, of e bt tm cType]
      type_backupTables[of e bt b] by (simp add: registry_ok_def)
qed

lemma type_typeMsg:
  "typeMsg (fst (processDMLMessage_type e bt b)) =
     (if snd (processDMLMessage_type e bt b) = None then None else typeMsg b)"
  by (simp add: processDMLMessage_type_def seq_simps split: option.splits)

lemma relation_snd:
  assumes "writer b k \<noteq> None"
  shows "snd (processDMLMessage_relation e k (Some k) b) =
           (case map_of (relationMessages b) k of
              None \<Rightarrow> None
            | Some rm \<Rightarrow>
                if write_delta_err e cRelation k then Some ErrCouldNotWriteRelationMessage else None)"
  using assms
  by (auto simp: processDMLMessage_relation_def seq_simps snd_wrapErr WriteCommandDataForTable_snd
      split: option.splits)

lemma relation_backupTables:
  "backupTables (fst (processDMLMessage_relation e k bt b)) =
     (case map_of (relationMessages b) k of
        None \<Rightarrow> backupTables b
      | Some rm \<Rightarrow> backupTables (fst (WriteCommandDataForTable e bt rm cRelation b)))"
  by (simp add: processDMLMessage_relation_def seq_simps split: option.splits)

lemma relation_stream:
  "stream (fst (processDMLMessage_relation e k (Some k) b)) =
     (case map_of (relationMessages b) k of
        None \<Rightarrow> stream b
      | Some rm \<Rightarrow>
          if writer b k \<noteq> None \<and> \<not> write_delta_err e cRelation k
          then (stream b)(k := stream b k @ [(currentLSN b, rm)]) else stream b)"
proof (cases "map_of (relationMessages b) k")
  case None
  then show ?thesis
    using stream_cong[OF relation_backupTables[of e k "Some k" b, unfolded None option.case]]
    by simp
next
  case (Some rm)
  then show ?thesis
    using stream_cong[OF relation_backupTables[of e k "Some k" b, unfolded Some option.case]]
    by (simp add: WriteCommandDataForTable_stream WriteCommandDataForTable_snd)
qed

lemma relation_tracked [simp]:
  "(writer (fst (processDMLMessage_relation e k bt b)) k' = None) = (writer b k' = None)"
proof (cases "map_of (relationMessages b) k")
  case None
  then show ?thesis
    using writer_cong[OF relation_backupTables[of e k bt b, unfolded None option.case]] by simp
next
  case (Some rm)
  then show ?thesis
    using writer_cong[OF relation_backupTables[of e k bt b, unfolded Some option.case]] by simp
qed

lemma relation_registry_ok:
  assumes "registry_ok b"
  shows "registry_ok (fst (processDMLMessage_relation e k bt b))"
proof (cases "map_of (relationMessages b) k")
  case None
  then show ?thesis
    using assms relation_backupTables[of e k bt b] by (simp add: registry_ok_def)
next
  case (Some rm)
  then show ?thesis
    using WriteCommandDataForTable_registry_ok[OF assms, of e bt rm cRelation]
      relation_backupTables[of e k bt b] by (simp add: registry_ok_def)
qed

lemma relation_pending:
  "map_of (relationMessages (fst (processDMLMessage_relation e k bt b))) =
     (if snd (processDMLMessage_relation e k bt b) = None
      then (map_of (relationMessages b))(k := None) else map_of (relationMessages b))"
  by (rule ext)
     (auto simp: processDMLMessage_relation_def seq_simps delete_conv' split: option.splits)

lemma processDMLMessage_untracked:
  "writer b k = None \<Longrightarrow> processDMLMessage e k cmd msg b = (b, None)"
  by (simp add: processDMLMessage_def Get_writer)

lemma processDMLMessage_tracked_eq:
  "writer b k \<noteq> None \<Longrightarrow>
   processDMLMessage e k cmd msg b =
     andThen (processDMLMessage_begin e k (Some k) b) (\<lambda>b.
     andThen (processDMLMessage_type e (Some k) b) (\<lambda>b.
     andThen (processDMLMessage_relation e k (Some k) b) (\<lambda>b.
     wrapErr ErrCouldNotWriteMessage (WriteCommandDataForTable e (Some k) msg cmd b))))"
  by (auto simp add: processDMLMessage_def Get_writer)

lemma processDMLMessage_backupTables_untracked:
  "writer b k = None \<Longrightarrow> backupTables (fst (processDMLMessage e k cmd msg b)) = backupTables b"
  by (simp add: processDMLMessage_untracked)

lemma processDMLMessage_tracked [simp]:
  "(writer (fst (processDMLMessage e k cmd msg b)) k' = None) = (writer b k' = None)"
proof (cases "writer b k = None")
  case True
  then show ?thesis by (simp add: processDMLMessage_untracked)
next
  case False
  then show ?thesis
    by (simp add: processDMLMessage_tracked_eq seq_simps)
qed

lemma processDMLMessage_registry_ok:
  assumes "registry_ok b"
  shows "registry_ok (fst (processDMLMessage e k cmd msg b))"
proof (cases "writer b k = None")
  case True
  then show ?thesis using assms by (simp add: processDMLMessage_untracked)
next
  case False
  let ?b1 = "fst (processDMLMessage_begin e k (Some k) b)"
  let ?b2 = "fst (processDMLMessage_type e (Some k) ?b1)"
  let ?b3 = "fst (processDMLMessage_relation e k (Some k) ?b2)"
  have 1: "registry_ok ?b1" using assms by (rule begin_registry_ok)
  then have 2: "registry_ok ?b2" by (rule type_registry_ok)
  then have 3: "registry_ok ?b3" by (rule relation_registry_ok)
  then have 4: "registry_ok (fst (WriteCommandDataForTable e (Some k) msg cmd ?b3))"
    by (rule WriteCommandDataForTable_registry_ok)
  show ?thesis
    using False 1 2 3 4 by (simp add: processDMLMessage_tracked_eq seq_simps)
qed

lemma processDMLMessage_snd:
  assumes "writer b k \<noteq> None"
  shows "snd (processDMLMessage e k cmd msg b) = None \<longleftrightarrow>
           (k \<in> set (participating b) \<or> \<not> write_delta_err e cBegin k \<and> txBeginRelMsg b \<noteq> None) \<and>
           (typeMsg b = None \<or> \<not> write_delta_err e cType k) \<and>
           (map_of (relationMessages b) k = None \<or> \<not> write_delta_err e cRelation k) \<and>
           \<not> write_delta_err e cmd k"
  using assms
  by (auto simp: processDMLMessage_tracked_eq seq_simps begin_snd type_snd relation_snd
      WriteCommandDataForTable_snd split: option.splits)

lemma processDMLMessage_no_nil:
  "snd (processDMLMessage e k cmd msg b) \<noteq> Some PanicNilPointer"
proof (cases "writer b k = None")
  case True
  then show ?thesis by (simp add: processDMLMessage_untracked)
next
  case False
  then show ?thesis
    by (auto simp: processDMLMessage_tracked_eq seq_simps begin_snd type_snd relation_snd
      snd_wrapErr WriteCommandDataForTable_snd split: option.splits if_splits)
qed

lemma processDMLMessage_participating:
  assumes "registry_ok b"
  shows "participating (fst (processDMLMessage e k cmd msg b)) =
           (if writer b k \<noteq> None \<and> k \<notin> set (participating b) \<and> \<not> write_delta_err e cBegin k \<and>
               txBeginRelMsg b \<noteq> None
            then participating b @ [k] else participating b)"
proof (cases "writer b k = None")
  case True
  then show ?thesis by (simp add: processDMLMessage_untracked)
next
  case False
  then show ?thesis
    using begin_participating[OF assms False, of e]
    by (simp add: processDMLMessage_tracked_eq seq_simps)
qed

lemma processDMLMessage_typeMsg:
  "typeMsg b = None \<Longrightarrow> typeMsg (fst (processDMLMessage e k cmd msg b)) = None"
proof (cases "writer b k = None")
  case True
  assume "typeMsg b = None"
  then show ?thesis using True by (simp add: processDMLMessage_untracked)
next
  case False
  assume "typeMsg b = None"
  then show ?thesis
    using False by (simp add: processDMLMessage_tracked_eq seq_simps type_typeMsg)
qed

lemma processDMLMessage_ok:
  assumes w: "writer b k \<noteq> None"
    and s: "snd (processDMLMessage e k cmd msg b) = None"
  shows "stream (fst (processDMLMessage e k cmd msg b)) =
           (stream b)(k := stream b k @
              (if k \<in> set (participating b) then [] else [(currentLSN b, beginMsg b)]) @
              (case typeMsg b of None \<Rightarrow> [] | Some tm \<Rightarrow> [(currentLSN b, tm)]) @
              (case map_of (relationMessages b) k of None \<Rightarrow> [] | Some rm \<Rightarrow> [(currentLSN b, rm)]) @
              [(currentLSN b, msg)])"
    and "map_of (relationMessages (fst (processDMLMessage e k cmd msg b))) =
           (map_of (relationMessages b))(k := None)"
    and "typeMsg (fst (processDMLMessage e k cmd msg b)) = None"
proof -
  define b1 where "b1 = fst (processDMLMessage_begin e k (Some k) b)"
  define b2 where "b2 = fst (processDMLMessage_type e (Some k) b1)"
  define b3 where "b3 = fst (processDMLMessage_relation e k (Some k) b2)"
  define b4 where "b4 = fst (WriteCommandDataForTable e (Some k) msg cmd b3)"
  have w1: "writer b1 k \<noteq> None" and w2: "writer b2 k \<noteq> None" and w3: "writer b3 k \<noteq> None"
    using w by (simp_all add: b1_def b2_def b3_def)
  have flags: "k \<in> set (participating b) \<or> \<not> write_delta_err e cBegin k"
    "typeMsg b = None \<or> \<not> write_delta_err e cType k"
    "map_of (relationMessages b) k = None \<or> \<not> write_delta_err e cRelation k"
    "\<not> write_delta_err e cmd k"
    using s processDMLMessage_snd[OF w, of e cmd msg] by auto
  have s1: "snd (processDMLMessage_begin e k (Some k) b) = None"
    and s2: "snd (processDMLMessage_type e (Some k) b1) = None"
    and s3: "snd (processDMLMessage_relation e k (Some k) b2) = None"
    and s4: "snd (WriteCommandDataForTable e (Some k) msg cmd b3) = None"
    using s w unfolding b1_def b2_def b3_def
    by (simp_all add: processDMLMessage_tracked_eq seq_simps split: if_splits)
  have res: "fst (processDMLMessage e k cmd msg b) = b4"
    using w s1 s2 s3 unfolding b1_def b2_def b3_def b4_def
    by (simp add: processDMLMessage_tracked_eq seq_simps)
  have f1: "currentLSN b1 = currentLSN b" "typeMsg b1 = typeMsg b"
    "relationMessages b1 = relationMessages b"
    by (simp_all add: b1_def)
  have f2: "currentLSN b2 = currentLSN b" "relationMessages b2 = relationMessages b"
    by (simp_all add: b2_def f1)
  have f3: "currentLSN b3 = currentLSN b" "typeMsg b3 = typeMsg b2"
    by (simp_all add: b3_def f2)
  have st1: "stream b1 = (stream b)(k := stream b k @
              (if k \<in> set (participating b) then [] else [(currentLSN b, beginMsg b)]))"
    using w flags(1) by (auto simp: b1_def begin_stream)
  have st2: "stream b2 = (stream b1)(k := stream b1 k @
              (case typeMsg b of None \<Rightarrow> [] | Some tm \<Rightarrow> [(currentLSN b, tm)]))"
    using w1 flags(2) by (auto simp: b2_def type_stream f1 split: option.splits)
  have st3: "stream b3 = (stream b2)(k := stream b2 k @
              (case map_of (relationMessages b) k of None \<Rightarrow> [] | Some rm \<Rightarrow> [(currentLSN b, rm)]))"
    using w2 flags(3) by (auto simp: b3_def relation_stream f2 split: option.splits)
  have st4: "stream b4 = (stream b3)(k := stream b3 k @ [(currentLSN b, msg)])"
    using s4 by (simp add: b4_def WriteCommandDataForTable_stream f3)
  show "stream (fst (processDMLMessage e k cmd msg b)) =
           (stream b)(k := stream b k @
              (if k \<in> set (participating b) then [] else [(currentLSN b, beginMsg b)]) @
              (case typeMsg b of None \<Rightarrow> [] | Some tm \<Rightarrow> [(currentLSN b, tm)]) @
              (case map_of (relationMessages b) k of None \<Rightarrow> [] | Some rm \<Rightarrow> [(currentLSN b, rm)]) @
              [(currentLSN b, msg)])"
    unfolding res st4 st3 st2 st1 by (rule ext) simp
  have "map_of (relationMessages b3) = (map_of (relationMessages b))(k := None)"
    using s3 by (simp add: b3_def relation_pending f2)
  then show "map_of (relationMessages (fst (processDMLMessage e k cmd msg b))) =
           (map_of (relationMessages b))(k := None)"
    by (simp add: res b4_def)
  have "typeMsg b2 = None"
    using s2 by (simp add: b2_def type_typeMsg)
  then show "typeMsg (fst (processDMLMessage e k cmd msg b)) = None"
    by (simp add: res b4_def f3)
qed

section \<open>Registering names and tables\<close>

lemma history_record_simps [simp]:
  "history (b\<lparr>currentLSN := l\<rparr>) = history b"
  "history (b\<lparr>relationMessages := rm\<rparr>) = history b"
  "history (b\<lparr>backupTables := ts\<rparr>) = history b"
  "history (b\<lparr>isChanged := ch\<rparr>) = history b"
  by (rule ext, simp add: history_def)+

lemma history_cong: "nameChangeHistory b' = nameChangeHistory b \<Longrightarrow> history b' = history b"
  unfolding history_def by (rule ext) (simp only:)

lemma history_Set_table [simp]: "history (Set_table k w b) = history b"
  by (rule ext) (simp add: history_def Set_table_def)

lemma SetTextID_simps [simp]:
  "ID (SetTextID name w) = ID w"
  "records (SetTextID name w) = records w"
  "TextID (SetTextID name w) = name"
  by (simp_all add: SetTextID_def)

lemma maybeRegisterNewName_history:
  "history (fst (maybeRegisterNewName oid name b)) =
     (if history b oid = [] \<or> Name (last (history b oid)) \<noteq> name
      then (history b)(oid := history b oid @ [\<lparr>Name = name, Lsn = transactionCommitLSN b\<rparr>])
      else history b)"
  by (rule ext)
     (auto simp: maybeRegisterNewName_def Let_def history_def store_def update_conv'
       case_prod_beta split: option.splits)

lemma maybeRegisterNewName_isChanged:
  "isChanged (fst (maybeRegisterNewName oid name b)) =
     (isChanged b \<or> history b oid = [] \<or> Name (last (history b oid)) \<noteq> name)"
  by (auto simp: maybeRegisterNewName_def Let_def store_def case_prod_beta split: option.splits)

lemma maybeRegisterNewName_snd:
  "snd (maybeRegisterNewName oid name b) =
     (if (history b oid = [] \<or> Name (last (history b oid)) \<noteq> name) \<and> writer b oid = None
      then Some PanicNilPointer else None)"
  by (auto simp: maybeRegisterNewName_def Let_def GetIfExists_writer deref_Some
       writer_cong[of "b\<lparr>nameChangeHistory := h, isChanged := c\<rparr>" b for h c]
       case_prod_beta split: option.splits)

lemma maybeRegisterNewName_writer:
  "writer (fst (maybeRegisterNewName oid name b)) =
     (if history b oid = [] \<or> Name (last (history b oid)) \<noteq> name
      then (case writer b oid of
              None \<Rightarrow> writer b
            | Some w \<Rightarrow> (writer b)(oid \<mapsto> SetTextID name w))
      else writer b)"
  by (auto simp: maybeRegisterNewName_def Let_def GetIfExists_writer deref_Some
       writer_cong[of "b\<lparr>nameChangeHistory := h, isChanged := c\<rparr>" b for h c]
       case_prod_beta split: option.splits)

lemma maybeRegisterNewName_tracked [simp]:
  "(writer (fst (maybeRegisterNewName oid name b)) k = None) = (writer b k = None)"
  by (auto simp: maybeRegisterNewName_writer split: option.splits)

lemma maybeRegisterNewName_stream [simp]:
  "stream (fst (maybeRegisterNewName oid name b)) = stream b"
  by (rule ext) (auto simp: stream_def maybeRegisterNewName_writer split: option.splits)

lemma maybeRegisterNewName_registry_ok:
  assumes "registry_ok b"
  shows "registry_ok (fst (maybeRegisterNewName oid name b))"
proof (cases "(history b oid = [] \<or> Name (last (history b oid)) \<noteq> name) \<and> writer b oid \<noteq> None")
  case True
  then obtain w where w: "writer b oid = Some w" by auto
  have "registry_ok (store oid (SetTextID name w) b)"
    using assms registry_ok_writer[OF assms w] by (intro registry_ok_store) simp_all
  moreover have "backupTables (fst (maybeRegisterNewName oid name b)) =
      backupTables (store oid (SetTextID name w) b)"
    using True w
    by (auto simp: maybeRegisterNewName_def Let_def GetIfExists_writer deref_Some store_def
       writer_cong[of "b\<lparr>nameChangeHistory := h, isChanged := c\<rparr>" b for h c])
  ultimately show ?thesis by (simp only: registry_ok_def)
next
  case False
  then have "backupTables (fst (maybeRegisterNewName oid name b)) = backupTables b"
    by (auto simp: maybeRegisterNewName_def Let_def GetIfExists_writer deref_Some
       writer_cong[of "b\<lparr>nameChangeHistory := h, isChanged := c\<rparr>" b for h c])
  then show ?thesis using assms by (simp only: registry_ok_def)
qed

lemma maybeRegisterNewName_TextID:
  assumes "writer b oid = Some w" "history b oid = [] \<or> Name (last (history b oid)) \<noteq> name"
  shows "map_option TextID (writer (fst (maybeRegisterNewName oid name b)) oid) = Some name"
  using assms by (simp add: maybeRegisterNewName_writer)

lemma tablebackup_New_simps [simp]:
  "ID (tablebackup_New n name oid) = oid"
  "records (tablebackup_New n name oid) = []"
  by (simp_all add: tablebackup_New_def)

lemma registerNewTable_simps:
  "fst (registerNewTable e oid name b) =
     (if TrackNewTables (cfg b) \<and> \<not> new_table_err e oid
      then Set_table oid (tablebackup_New (DeltasPerFile (cfg b)) name oid) b else b)"
  "fst (snd (registerNewTable e oid name b)) = (TrackNewTables (cfg b) \<and> \<not> new_table_err e oid)"
  "snd (snd (registerNewTable e oid name b)) =
     (if TrackNewTables (cfg b) \<and> new_table_err e oid then Some ErrTablebackupNew else None)"
  by (simp_all add: registerNewTable_def)

lemma tail_fst:
  "fst (processRelationMessage_tail oid name raw b) =
     (if snd (maybeRegisterNewName oid name b) = None
      then (fst (maybeRegisterNewName oid name b))
             \<lparr>relationMessages :=
                AList.update oid raw (relationMessages (fst (maybeRegisterNewName oid name b)))\<rparr>
      else fst (maybeRegisterNewName oid name b))"
  by (simp add: processRelationMessage_tail_def seq_simps)

lemma tail_snd:
  "snd (processRelationMessage_tail oid name raw b) = snd (maybeRegisterNewName oid name b)"
  by (simp add: processRelationMessage_tail_def seq_simps)

lemma tail_writer:
  "writer (fst (processRelationMessage_tail oid name raw b)) =
     writer (fst (maybeRegisterNewName oid name b))"
  by (simp add: tail_fst)

lemma tail_registry_ok:
  "registry_ok b \<Longrightarrow> registry_ok (fst (processRelationMessage_tail oid name raw b))"
  using maybeRegisterNewName_registry_ok[of b oid name]
  by (simp add: tail_fst registry_ok_def)

lemma tail_stream [simp]:
  "stream (fst (processRelationMessage_tail oid name raw b)) = stream b"
proof -
  have "stream (fst (processRelationMessage_tail oid name raw b)) =
        stream (fst (maybeRegisterNewName oid name b))"
    by (rule stream_cong) (simp add: tail_fst)
  then show ?thesis by simp
qed

lemma tail_pending:
  "writer b oid \<noteq> None \<Longrightarrow>
   map_of (relationMessages (fst (processRelationMessage_tail oid name raw b))) =
     (map_of (relationMessages b))(oid \<mapsto> raw)"
  by (rule ext) (auto simp: tail_fst maybeRegisterNewName_snd update_conv')

text \<open>
  Whether a relation message leaves the table with a writer: it has one already, or new
  tables are tracked and \<open>tablebackup.New\<close> succeeds.
\<close>

lemma processRelationMessage_eq:
  "processRelationMessage e oid name raw b =
     (if writer b oid \<noteq> None then processRelationMessage_tail oid name raw b
      else if \<not> TrackNewTables (cfg b) then (b, None)
      else if new_table_err e oid then (b, Some ErrCouldNotAddBackupProcess)
      else processRelationMessage_tail oid name raw
             (Set_table oid (tablebackup_New (DeltasPerFile (cfg b)) name oid) b))"
  by (auto simp: processRelationMessage_def Get_writer registerNewTable_def)

lemma processRelationMessage_tracked:
  "(writer (fst (processRelationMessage e oid name raw b)) k = None) =
     (writer b k = None \<and> \<not> (k = oid \<and> TrackNewTables (cfg b) \<and> \<not> new_table_err e oid))"
  by (simp add: processRelationMessage_eq tail_writer)

lemma processRelationMessage_registry_ok:
  assumes "registry_ok b"
  shows "registry_ok (fst (processRelationMessage e oid name raw b))"
proof -
  have "registry_ok (Set_table oid (tablebackup_New (DeltasPerFile (cfg b)) name oid) b)"
    using assms by (intro registry_ok_Set_table) simp_all
  then show ?thesis
    using assms by (auto simp: processRelationMessage_eq intro: tail_registry_ok)
qed

lemma stream_Set_table_New:
  "writer b oid = None \<Longrightarrow> stream (Set_table oid (tablebackup_New n name oid) b) = stream b"
  by (rule ext) (simp add: stream_def)

lemma processRelationMessage_stream [simp]:
  "stream (fst (processRelationMessage e oid name raw b)) = stream b"
  by (auto simp: processRelationMessage_eq stream_Set_table_New)

lemma processRelationMessage_no_nil:
  "snd (processRelationMessage e oid name raw b) \<noteq> Some PanicNilPointer"
  by (auto simp: processRelationMessage_eq tail_snd maybeRegisterNewName_snd)

lemma processRelationMessage_snd:
  "(snd (processRelationMessage e oid name raw b) = None) =
     (\<not> (writer b oid = None \<and> TrackNewTables (cfg b) \<and> new_table_err e oid))"
  by (auto simp: processRelationMessage_eq tail_snd maybeRegisterNewName_snd)

lemma processRelationMessage_pending:
  assumes "snd (processRelationMessage e oid name raw b) = None"
  shows "map_of (relationMessages (fst (processRelationMessage e oid name raw b))) =
           (if writer b oid \<noteq> None \<or> TrackNewTables (cfg b)
            then (map_of (relationMessages b))(oid \<mapsto> raw) else map_of (relationMessages b))"
proof -
  have "map_of (relationMessages (fst (processRelationMessage_tail oid name raw
            (Set_table oid (tablebackup_New (DeltasPerFile (cfg b)) name oid) b)))) =
        (map_of (relationMessages b))(oid \<mapsto> raw)"
    using tail_pending[of "Set_table oid (tablebackup_New (DeltasPerFile (cfg b)) name oid) b" oid name raw]
    by simp
  then show ?thesis
    using assms by (auto simp: processRelationMessage_eq tail_pending)
qed

section \<open>The commit records\<close>

lemma commitLoop_tracked [simp]:
  "(writer (fst (commitLoop e raw ks b)) k = None) = (writer b k = None)"
  by (induction ks arbitrary: b) (simp_all add: seq_simps)

lemma commitLoop_registry_ok:
  "registry_ok b \<Longrightarrow> registry_ok (fst (commitLoop e raw ks b))"
  by (induction ks arbitrary: b) (simp_all add: seq_simps WriteCommandDataForTable_registry_ok)

lemma commitLoop_snd:
  "list_all (\<lambda>k. writer b k \<noteq> None) ks \<Longrightarrow>
   snd (commitLoop e raw ks b) =
     (if list_ex (write_delta_err e cCommit) ks then Some ErrWriteDelta else None)"
proof (induction ks arbitrary: b)
  case Nil
  show ?case by simp
next
  case (Cons k ks)
  let ?b1 = "fst (WriteCommandDataForTable e (Some k) raw cCommit b)"
  have "list_all (\<lambda>k. writer ?b1 k \<noteq> None) ks"
    using Cons.prems by simp
  then show ?case
    using Cons.prems Cons.IH[of ?b1]
    by (simp add: seq_simps GetIfExists_writer WriteCommandDataForTable_snd)
qed

lemma commitLoop_stream:
  assumes "snd (commitLoop e raw ks b) = None" "distinct ks"
  shows "stream (fst (commitLoop e raw ks b)) k =
           (if k \<in> set ks then stream b k @ [(currentLSN b, raw)] else stream b k)"
  using assms
proof (induction ks arbitrary: b)
  case Nil
  show ?case by simp
next
  case (Cons a ks)
  let ?r = "WriteCommandDataForTable e (GetIfExists a b) raw cCommit b"
  have r: "snd ?r = None" and rest: "snd (commitLoop e raw ks (fst ?r)) = None"
    using Cons.prems(1) by (simp_all add: seq_simps split: if_splits)
  have a: "GetIfExists a b = Some a"
    using r by (auto simp: GetIfExists_writer split: if_splits)
  have "stream (fst ?r) = (stream b)(a := stream b a @ [(currentLSN b, raw)])"
    using r by (simp add: a WriteCommandDataForTable_stream)
  moreover have "stream (fst (commitLoop e raw ks (fst ?r))) k =
      (if k \<in> set ks then stream (fst ?r) k @ [(currentLSN (fst ?r), raw)] else stream (fst ?r) k)"
    using Cons.IH[OF rest] Cons.prems(2) by simp
  ultimately show ?case
    using r Cons.prems(2) by (auto simp: seq_simps)
qed

section \<open>The invariant of the engine\<close>

lemma registry_ok_currentLSN [simp]: "registry_ok (b\<lparr>currentLSN := l\<rparr>) = registry_ok b"
  by (simp add: registry_ok_def)

lemma engine_inv_currentLSN [simp]: "engine_inv (b\<lparr>currentLSN := l\<rparr>) = engine_inv b"
  by (simp add: engine_inv_def)

lemma processRelationMessage_engine_inv:
  assumes "engine_inv b"
  shows "engine_inv (fst (processRelationMessage e oid name raw b))"
proof -
  have "list_all (\<lambda>k. writer (fst (processRelationMessage e oid name raw b)) k \<noteq> None)
          (participating b)"
    using assms by (simp add: engine_inv_def list_all_iff processRelationMessage_tracked)
  then show ?thesis
    using assms by (simp add: engine_inv_def processRelationMessage_registry_ok)
qed

lemma processDMLMessage_engine_inv:
  assumes "engine_inv b"
  shows "engine_inv (fst (processDMLMessage e k cmd msg b))"
proof -
  have ok: "registry_ok b" using assms by (simp add: engine_inv_def)
  show ?thesis
    using assms
    by (auto simp: engine_inv_def processDMLMessage_registry_ok processDMLMessage_typeMsg
        processDMLMessage_participating[OF ok] list_all_iff)
qed

lemma handleCommit_backupTables:
  "backupTables (fst (handleCommit e lsn raw b)) =
     backupTables (fst (commitLoop e raw (participating b) (b\<lparr>currentLSN := lsn\<rparr>)))"
  by (simp add: fst_handleCommit Let_def)

lemma handleCommit_engine_inv:
  assumes "engine_inv b"
  shows "engine_inv (fst (handleCommit e lsn raw b))"
proof -
  let ?b2 = "fst (commitLoop e raw (participating b) (b\<lparr>currentLSN := lsn\<rparr>))"
  have "registry_ok ?b2"
    using assms by (intro commitLoop_registry_ok) (simp add: engine_inv_def)
  then have 1: "registry_ok (fst (handleCommit e lsn raw b))"
    using handleCommit_backupTables[of e lsn raw b] by (simp only: registry_ok_def)
  have "writer (fst (handleCommit e lsn raw b)) = writer ?b2"
    by (rule writer_cong) (rule handleCommit_backupTables)
  then have 2: "list_all (\<lambda>k. writer (fst (handleCommit e lsn raw b)) k \<noteq> None) (participating b)"
    using assms by (simp add: engine_inv_def)
  show ?thesis
    using assms 1 2 by (simp add: engine_inv_def)
qed

lemma handler_engine_inv:
  assumes "engine_inv b"
  shows "engine_inv (fst (handler e m walStart b))"
proof (cases m)
  case (Begin xid finalLSN raw)
  then show ?thesis
    using assms by (simp add: handler_simps engine_inv_def participating_def registry_ok_def
        writer_def)
qed (use assms in \<open>simp_all add: handler_simps processRelationMessage_engine_inv
        processDMLMessage_engine_inv handleCommit_engine_inv\<close>)

lemma handleCommit_no_nil:
  assumes "engine_inv b"
  shows "snd (handleCommit e lsn raw b) \<noteq> Some PanicNilPointer"
proof -
  let ?r = "commitLoop e raw (participating b) (b\<lparr>currentLSN := lsn\<rparr>)"
  let ?r4 = "advanceFlushLSN e (fst (flushOidNameMap e (fst ?r)))"
  have tracked: "list_all (\<lambda>k. writer (b\<lparr>currentLSN := lsn\<rparr>) k \<noteq> None) (participating b)"
    using assms by (simp add: engine_inv_def)
  have 1: "snd ?r \<noteq> Some PanicNilPointer"
    by (simp add: commitLoop_snd[OF tracked])
  have "writer (fst ?r4) = writer (fst ?r)"
    by (rule writer_cong) simp
  then have "list_all (\<lambda>k. deref (GetIfExists k (fst ?r4)) (fst ?r4) \<noteq> None) (participating (fst ?r4))"
    using tracked by (simp add: GetIfExists_writer deref_Some list_all_iff del: not_None_eq)
  then have 2: "snd (updateMetricsOnCommit (fst ?r4)) = None"
    by (simp add: updateMetricsOnCommit_def)
  have 3: "snd ?r4 \<noteq> Some PanicNilPointer"
    by (simp add: advanceFlushLSN_def Let_def sendStatus_def)
  show ?thesis
    using 1 2 3 by (simp add: snd_handleCommit Let_def)
qed

lemma handler_no_nil:
  assumes "engine_inv b"
  shows "snd (handler e m walStart b) \<noteq> Some PanicNilPointer"
proof (cases m)
  case (Commit lsn raw ts)
  then show ?thesis
    using handleCommit_no_nil[of "b\<lparr>currentLSN := walStart\<rparr>" e lsn raw] assms
    by (simp add: handler_simps)
qed (simp_all add: handler_simps processRelationMessage_no_nil processDMLMessage_no_nil)

lemma handleAll_engine_inv:
  "engine_inv b \<Longrightarrow> engine_inv (fst (handleAll ms b))"
proof (induction ms arbitrary: b)
  case Nil
  then show ?case by simp
next
  case (Cons x ms)
  obtain e m w where x: "x = (e, m, w)" by (cases x)
  show ?case
    using Cons.prems Cons.IH[OF handler_engine_inv[OF Cons.prems, of e m w]]
    by (simp add: x seq_simps handler_engine_inv)
qed

lemma handleAll_no_nil:
  "engine_inv b \<Longrightarrow> snd (handleAll ms b) \<noteq> Some PanicNilPointer"
proof (induction ms arbitrary: b)
  case Nil
  then show ?case by simp
next
  case (Cons x ms)
  obtain e m w where x: "x = (e, m, w)" by (cases x)
  show ?case
    using Cons.prems Cons.IH[OF handler_engine_inv[OF Cons.prems, of e m w]]
      handler_no_nil[OF Cons.prems, of e m w]
    by (simp add: x seq_simps)
qed

lemma registerTables_registry_ok:
  "registry_ok b \<Longrightarrow> registry_ok (fst (registerTables d e ts b))"
proof (induction ts arbitrary: b)
  case Nil
  then show ?case by simp
next
  case (Cons t ts)
  let ?b1 = "Set_table (ti_oid t) (tablebackup_New (DeltasPerFile (cfg b)) (ti_name t) (ti_oid t)) b"
  have "registry_ok ?b1"
    using Cons.prems by (intro registry_ok_Set_table) simp_all
  then have "registry_ok (fst (maybeRegisterNewName (ti_oid t) (ti_name t) ?b1))"
    by (rule maybeRegisterNewName_registry_ok)
  then show ?case
    using Cons.prems Cons.IH by (simp add: seq_simps Let_def)
qed

lemma prepareDB_slot_frame [simp]:
  "backupTables (fst (prepareDB_slot d e b)) = backupTables b"
  "typeMsg (fst (prepareDB_slot d e b)) = typeMsg b"
  "txBeginRelMsg (fst (prepareDB_slot d e b)) = txBeginRelMsg b"
  "cfg (fst (prepareDB_slot d e b)) = cfg b"
  by (simp_all add: prepareDB_slot_def Let_def split: option.splits sum.splits)

lemma New_engine_inv: "engine_inv (fst (New d e c))"
proof -
  have init: "registry_ok (newLogicalBackup c)" "typeMsg (newLogicalBackup c) = None"
    "txBeginRelMsg (newLogicalBackup c) = None"
    by (simp_all add: newLogicalBackup_def registry_ok_def)
  have tables: "registry_ok (fst (prepareTablesForPublication d e b))" if "registry_ok b" for b
  proof -
    have "registry_ok (fst (registerTables d e (rows d) b))"
      using that by (rule registerTables_registry_ok)
    then have "registry_ok (fst (flushOidNameMap e (fst (registerTables d e (rows d) b))))"
      by (simp add: registry_ok_def)
    then show ?thesis
      using that registerTables_registry_ok[OF that, of d e "rows d"]
      by (simp add: prepareTablesForPublication_def seq_simps)
  qed
  have db: "registry_ok (fst (prepareDB d e b))" if "registry_ok b" for b
  proof -
    have "registry_ok (fst (prepareDB_slot d e (b\<lparr>latestFlushLSN := slot_flush_lsn d\<rparr>)))"
      using that by (simp add: registry_ok_def)
    then show ?thesis
      using that tables by (simp add: prepareDB_def Let_def seq_simps registry_ok_def)
  qed
  have 1: "registry_ok (fst (New d e c))"
    using init(1) db[OF init(1)] by (simp add: New_def Let_def seq_simps)
  have 2: "typeMsg (fst (New d e c)) = None" "txBeginRelMsg (fst (New d e c)) = None"
    using init(2,3) by (simp_all add: New_def Let_def seq_simps prepareDB_def)
  show ?thesis
    using 1 2 by (simp add: engine_inv_def participating_def)
qed

text \<open>
  Claim C10. In every state the engine reaches from \<open>New\<close> by handling messages, one after the
  other and whatever they are, every OID in the participating set has a writer in the
  registry: \<open>processDMLMessage\<close> adds an OID to the set only after \<open>Get\<close> found its writer, and
  the handler never removes a writer. Hence no message handled on the way, and no Commit
  handled next, calls a method through a nil writer.
\<close>

theorem participating_tables_registered:
  "list_all (\<lambda>oid. GetIfExists oid (fst (handleAll ms (fst (New d e c)))) \<noteq> None)
     (participating (fst (handleAll ms (fst (New d e c))))) \<and>
   snd (handleAll ms (fst (New d e c))) \<noteq> Some PanicNilPointer \<and>
   snd (handler e' (Commit lsn raw ts) walStart (fst (handleAll ms (fst (New d e c))))) \<noteq>
     Some PanicNilPointer \<and>
   list_all (\<lambda>oid. oid \<in> set (participating (fst (handleAll ms (fst (New d e c))))) \<or>
                    oid = k \<and> fst (Get k (fst (handleAll ms (fst (New d e c))))) \<noteq> None)
     (participating (fst (processDMLMessage e' k cmd msg (fst (handleAll ms (fst (New d e c)))))))"
proof -
  define b where "b = fst (handleAll ms (fst (New d e c)))"
  have inv: "engine_inv b"
    unfolding b_def by (intro handleAll_engine_inv New_engine_inv)
  then have ok: "registry_ok b" by (simp add: engine_inv_def)
  have 1: "list_all (\<lambda>oid. GetIfExists oid b \<noteq> None) (participating b)"
    using inv by (simp add: engine_inv_def GetIfExists_writer list_all_iff)
  have 2: "snd (handleAll ms (fst (New d e c))) \<noteq> Some PanicNilPointer"
    by (intro handleAll_no_nil New_engine_inv)
  have 3: "snd (handler e' (Commit lsn raw ts) walStart b) \<noteq> Some PanicNilPointer"
    using inv by (rule handler_no_nil)
  have 4: "list_all (\<lambda>oid. oid \<in> set (participating b) \<or> oid = k \<and> fst (Get k b) \<noteq> None)
     (participating (fst (processDMLMessage e' k cmd msg b)))"
    by (simp add: processDMLMessage_participating[OF ok] list_all_iff Get_writer)
  show ?thesis
    using 1 2 3 4 unfolding b_def by blast
qed

theorem participating_tables_registered_witness:
  "participating (fst (handleAll (butlast example_tx) example_engine)) = [1] \<and>
   GetIfExists 1 (fst (handleAll (butlast example_tx) example_engine)) = Some 1 \<and>
   snd (handler io_ok (Commit 0x100 [4] 0) 0x108 (fst (handleAll (butlast example_tx) example_engine)))
     \<noteq> Some PanicNilPointer"
proof -
  have p: "participating (fst (handleAll (butlast example_tx) example_engine)) = [1]"
    by code_simp
  show ?thesis
    using participating_tables_registered[of "butlast example_tx" example_startup io_ok example_cfg
        io_ok "0x100" "[4]" 0 "0x108" 1 cInsert "[]", folded example_engine_def]
    by (simp add: p GetIfExists_def split: option.splits)
qed

end
